theory Spec2Isabelle
  imports Main "HOL-Library.Word"
begin

section \<open>Leader election engine: pkg/util/kubernetes/apiserver/leaderelection\<close>

text \<open>
  A shallow embedding of \<^verbatim>\<open>leaderelection.go\<close>. The engine is a record, every method
  takes the receiver and returns it updated, every Go \<^verbatim>\<open>error\<close> result is an
  \<open>error option\<close> (\<open>None\<close> is \<^verbatim>\<open>nil\<close>). Calls that leave the package (the host name,
  the configuration, the API client, the election primitive, the JSON decoder, the
  clock) are answered by an environment record \<open>env\<close>. Log statements have no effect on
  the results and are left out.
\<close>

subsection \<open>Durations and constants\<close>

text \<open>\<^verbatim>\<open>time.Duration\<close> is an \<^verbatim>\<open>int64\<close> count of nanoseconds; its arithmetic wraps.\<close>

type_synonym Duration = "64 word"

definition Millisecond :: Duration where
  "Millisecond = 1000000"

definition Second :: Duration where
  "Second = 1000 * Millisecond"

definition defaultLeaderLeaseDuration :: Duration where
  "defaultLeaderLeaseDuration = 60 * Second"

definition defaultLeaseName :: string where
  "defaultLeaseName = ''datadog-leader-election''"

definition clientTimeout :: Duration where
  "clientTimeout = 2 * Second"

subsection \<open>Errors\<close>

text \<open>
  The error values the package sees. \<open>StatusError reason message\<close> is an API status
  error of the Kubernetes client, \<open>ErrorString\<close> any other error by its message,
  \<open>ErrNotFound\<close> the sentinel \<^verbatim>\<open>apiserver.ErrNotFound\<close>, and \<open>TimeoutError d\<close> the value
  of \<^verbatim>\<open>fmt.Errorf("leader election still not running, timeout after %s", d.String())\<close>.
\<close>

datatype error =
    StatusError string string
  | ErrorString string
  | ErrNotFound
  | TimeoutError Duration

text \<open>\<^verbatim>\<open>errors.IsNotFound\<close> of apimachinery: a status error whose reason is NotFound.\<close>

fun IsNotFound :: "error \<Rightarrow> bool" where
  "IsNotFound (StatusError reason msg) = (reason = ''NotFound'')"
| "IsNotFound _ = False"

subsection \<open>The retrier, the clients and the engine\<close>

text \<open>
  The fields of \<^verbatim>\<open>retry.Config\<close> that \<^verbatim>\<open>GetCustomLeaderEngine\<close> sets. The attempt
  method is always the \<^verbatim>\<open>init\<close> method of the engine that owns the retrier, so it is
  not stored. Of the strategies only \<^verbatim>\<open>retry.RetryCount\<close> is named by the source;
  \<open>NoStrategy\<close> stands for the zero value.
\<close>

datatype Strategy = NoStrategy | RetryCountStrategy

record Config =
  Name :: string
  Strategy :: Strategy
  RetryCount :: nat
  RetryDelay :: Duration

text \<open>
  Modelled from the spec: the type \<^verbatim>\<open>retry.Retrier\<close> (package \<^verbatim>\<open>pkg/util/retry\<close>) is
  not part of the sources at hand. The spec describes a wrapper that invokes the
  initialization function with a bounded count of attempts and a fixed delay and owns
  the memo "initialization has already succeeded". The record holds that memo, the
  number of failed attempts, the earliest time of the next attempt and the error of the
  last attempt, beside the configuration. \<open>tryCount\<close> attempts have failed so far.
\<close>

record Retrier =
  cfg :: Config
  succeeded :: bool
  tryCount :: nat
  nextTry :: int
  lastTryError :: "error option"

datatype CoreV1Client = CoreV1Client nat

datatype LeaderElector = LeaderElector nat

text \<open>
  The struct \<^verbatim>\<open>LeaderEngine\<close>. The mutexes \<^verbatim>\<open>m\<close> and \<^verbatim>\<open>currentHolderMutex\<close> hold no
  data: \<^verbatim>\<open>m\<close> makes every call of \<^verbatim>\<open>EnsureLeaderElectionRuns\<close> on one engine run
  alone, so the calls on an engine form a sequence. \<open>once\<close> is the state of the
  \<^verbatim>\<open>sync.Once\<close>: true when \<^verbatim>\<open>Do\<close> has run its function. \<open>launches\<close> is not a field of
  the struct: it counts the run loops that \<^verbatim>\<open>go le.leaderElector.Run()\<close> has launched.
\<close>

record LeaderEngine =
  initRetry :: Retrier
  running :: bool
  once :: bool
  HolderIdentity :: string
  LeaseDuration :: Duration
  LeaseName :: string
  LeaderNamespace :: string
  coreClient :: "CoreV1Client option"
  leaderElector :: "LeaderElector option"
  currentHolderIdentity :: string
  launches :: nat

text \<open>The zero value of \<^verbatim>\<open>retry.Retrier\<close> and of \<^verbatim>\<open>LeaderEngine\<close>.\<close>

definition zero_Retrier :: Retrier where
  "zero_Retrier =
     \<lparr>cfg = \<lparr>Name = [], Strategy = NoStrategy, RetryCount = 0, RetryDelay = 0\<rparr>,
      succeeded = False, tryCount = 0, nextTry = 0, lastTryError = None\<rparr>"

definition zero_LeaderEngine :: LeaderEngine where
  "zero_LeaderEngine =
     \<lparr>initRetry = zero_Retrier, running = False, once = False, HolderIdentity = [],
      LeaseDuration = 0, LeaseName = [], LeaderNamespace = [], coreClient = None,
      leaderElector = None, currentHolderIdentity = [], launches = 0\<rparr>"

subsection \<open>Holder queries\<close>

definition CurrentLeaderName :: "LeaderEngine \<Rightarrow> string" where
  "CurrentLeaderName le = currentHolderIdentity le"

definition IsLeader :: "LeaderEngine \<Rightarrow> bool" where
  "IsLeader le = (CurrentLeaderName le = HolderIdentity le)"

subsection \<open>The world outside the package\<close>

text \<open>
  The coordination record as far as the package reads it (its annotations), and the
  decoded \<^verbatim>\<open>resourcelock.LeaderElectionRecord\<close> (times in seconds).
\<close>

record ConfigMap =
  Annotations :: "string \<rightharpoonup> string"

record LeaderElectionRecord =
  led_HolderIdentity :: string
  led_LeaseDurationSeconds :: int
  led_AcquireTime :: int
  led_RenewTime :: int
  led_LeaderTransitions :: int

definition zero_LeaderElectionRecord :: LeaderElectionRecord where
  "zero_LeaderElectionRecord =
     \<lparr>led_HolderIdentity = [], led_LeaseDurationSeconds = 0, led_AcquireTime = 0,
      led_RenewTime = 0, led_LeaderTransitions = 0\<rparr>"

definition LeaderElectionRecordAnnotationKey :: string where
  "LeaderElectionRecordAnnotationKey = ''control-plane.alpha.kubernetes.io/leader''"

text \<open>
  \<open>world\<close> counts the requests made so far: the calls of \<^verbatim>\<open>apiserver.GetAPIClient\<close>
  and the \<^verbatim>\<open>Get\<close> requests for a ConfigMap. The answer to a request may depend on its
  number, so that a request made a second time could be answered differently.
\<close>

record world =
  client_calls :: nat
  cm_gets :: nat

text \<open>
  \<open>env\<close> answers what one call of the package asks of the outside:
  \<^item> \<open>time_Now\<close>: the clock when the retrier is triggered, in nanoseconds;
  \<^item> \<open>os_Hostname\<close>: both results of \<^verbatim>\<open>os.Hostname()\<close>;
  \<^item> \<open>leader_lease_duration\<close>: \<^verbatim>\<open>config.Datadog.GetInt("leader_lease_duration")\<close>, an
    \<^verbatim>\<open>int\<close> of 64 bits;
  \<^item> \<open>GetAPIClient n\<close>: the n-th call of \<^verbatim>\<open>apiserver.GetAPIClient()\<close>, an error or the
    \<^verbatim>\<open>Client\<close> field of the client;
  \<^item> \<open>GetResourcesNamespace\<close>: \<^verbatim>\<open>apiserver.GetResourcesNamespace()\<close>;
  \<^item> \<open>ConfigMaps_Get n c ns name\<close>: the n-th request
    \<^verbatim>\<open>c.ConfigMaps(ns).Get(name, metav1.GetOptions{})\<close>;
  \<^item> \<open>newElection le name ns ttl\<close>: both results of the method \<^verbatim>\<open>le.newElection\<close>, which
    is defined in another file of the package;
  \<^item> \<open>json_Unmarshal text led\<close>: \<^verbatim>\<open>json.Unmarshal([]byte(text), &led)\<close>, the record as
    the decoder leaves it and the error;
  \<^item> \<open>holder_writes k\<close>: what the election's callback, the only writer of
    \<open>currentHolderIdentity\<close>, wrote last before the k-th case of the \<^verbatim>\<open>select\<close> is
    taken and after the case before it (\<open>None\<close>: it did not fire);
  \<^item> \<open>tick_wins_tie\<close>: which case \<^verbatim>\<open>select\<close> takes when a tick and the timeout are
    ready together.
\<close>

record env =
  time_Now :: int
  os_Hostname :: "string \<times> error option"
  leader_lease_duration :: "64 word"
  GetAPIClient :: "nat \<Rightarrow> error + CoreV1Client"
  GetResourcesNamespace :: string
  ConfigMaps_Get :: "nat \<Rightarrow> CoreV1Client \<Rightarrow> string \<Rightarrow> string \<Rightarrow> error + ConfigMap"
  newElection ::
    "LeaderEngine \<Rightarrow> string \<Rightarrow> string \<Rightarrow> Duration \<Rightarrow> LeaderElector option \<times> error option"
  json_Unmarshal :: "string \<Rightarrow> LeaderElectionRecord \<Rightarrow> LeaderElectionRecord \<times> error option"
  holder_writes :: "nat \<Rightarrow> string option"
  tick_wins_tie :: bool

subsection \<open>Initialization\<close>

definition newLeaderEngine :: "env \<Rightarrow> LeaderEngine" where
  "newLeaderEngine env =
     (let leaderNamespace = GetResourcesNamespace env
      in zero_LeaderEngine\<lparr>LeaseName := defaultLeaseName, LeaderNamespace := leaderNamespace\<rparr>)"

text \<open>
  The method \<^verbatim>\<open>init\<close>, in the order of the source. The host name is assigned to
  \<open>HolderIdentity\<close> before its error is looked at, and so is the elector returned by
  \<^verbatim>\<open>newElection\<close>.
\<close>

definition init_identity :: "env \<Rightarrow> LeaderEngine \<Rightarrow> error option \<times> LeaderEngine" where
  "init_identity env le =
     (if HolderIdentity le = []
      then (snd (os_Hostname env), le\<lparr>HolderIdentity := fst (os_Hostname env)\<rparr>)
      else (None, le))"

definition init_lease :: "env \<Rightarrow> LeaderEngine \<Rightarrow> LeaderEngine" where
  "init_lease env le =
     (let leaseDuration = leader_lease_duration env;
          le1 = (if leaseDuration \<noteq> 0 then le\<lparr>LeaseDuration := leaseDuration * Second\<rparr> else le)
      in if LeaseDuration le1 = 0 then le1\<lparr>LeaseDuration := defaultLeaderLeaseDuration\<rparr>
         else le1)"

definition init_election :: "env \<Rightarrow> LeaderEngine \<Rightarrow> error option \<times> LeaderEngine" where
  "init_election env le =
     (let (elector, err) = newElection env le (LeaseName le) (LeaderNamespace le) (LeaseDuration le)
      in (err, le\<lparr>leaderElector := elector\<rparr>))"

definition init_probe ::
  "env \<Rightarrow> LeaderEngine \<Rightarrow> world \<Rightarrow> error option \<times> LeaderEngine \<times> world" where
  "init_probe env le w =
     (case GetAPIClient env (client_calls w) of
        Inl err \<Rightarrow> (Some err, le, w\<lparr>client_calls := Suc (client_calls w)\<rparr>)
      | Inr client \<Rightarrow>
          (let w1 = w\<lparr>client_calls := Suc (client_calls w)\<rparr>;
               le1 = le\<lparr>coreClient := Some client\<rparr>;
               probe = ConfigMaps_Get env (cm_gets w1) client (LeaderNamespace le1) defaultLeaseName;
               w2 = w1\<lparr>cm_gets := Suc (cm_gets w1)\<rparr>
           in case probe of
                Inl err \<Rightarrow>
                  if IsNotFound err = False then (Some err, le1, w2)
                  else (case init_election env le1 of (e, le2) \<Rightarrow> (e, le2, w2))
              | Inr cm \<Rightarrow> (case init_election env le1 of (e, le2) \<Rightarrow> (e, le2, w2))))"

definition LeaderEngine_init ::
  "env \<Rightarrow> LeaderEngine \<Rightarrow> world \<Rightarrow> error option \<times> LeaderEngine \<times> world" where
  "LeaderEngine_init env le w =
     (case init_identity env le of
        (Some err, le1) \<Rightarrow> (Some err, le1, w)
      | (None, le1) \<Rightarrow> init_probe env (init_lease env le1) w)"

subsection \<open>The retried initialization and the singleton\<close>

text \<open>
  Modelled from the spec: \<^verbatim>\<open>Retrier.SetupRetrier\<close> is not part of the sources at hand;
  it binds the retry wrapper to its configuration.
\<close>

definition SetupRetrier :: "Config \<Rightarrow> Retrier \<Rightarrow> Retrier" where
  "SetupRetrier c r = r\<lparr>cfg := c\<rparr>"

text \<open>
  Modelled from the spec: \<^verbatim>\<open>Retrier.TriggerRetry\<close> is not part of the sources at hand.
  By the spec the wrapper memoizes success, so that a later trigger is a no-op; it makes
  at most one attempt per trigger, a bounded number of attempts in all (\<open>RetryCount\<close>)
  and none before a fixed delay (\<open>RetryDelay\<close>) has passed since the last one; an
  attempt's error is the failure it reports, and while initialization has not succeeded
  and no attempt is made it reports an error as well (the last attempt's, when there is
  one).
\<close>

definition TriggerRetry ::
  "env \<Rightarrow> LeaderEngine \<Rightarrow> world \<Rightarrow> error option \<times> LeaderEngine \<times> world" where
  "TriggerRetry env le w =
     (let r = initRetry le
      in if succeeded r then (None, le, w)
         else if RetryCount (cfg r) \<le> tryCount r \<or> time_Now env < nextTry r
         then (case lastTryError r of
                 Some err \<Rightarrow> (Some err, le, w)
               | None \<Rightarrow> (Some (ErrorString ''initialization was not attempted''), le, w))
         else (case LeaderEngine_init env le w of
                 (None, le1, w1) \<Rightarrow>
                   (None, le1\<lparr>initRetry := (initRetry le1)\<lparr>succeeded := True\<rparr>\<rparr>, w1)
               | (Some err, le1, w1) \<Rightarrow>
                   (Some err,
                    le1\<lparr>initRetry := (initRetry le1)
                      \<lparr>tryCount := Suc (tryCount (initRetry le1)),
                       nextTry := time_Now env + sint (RetryDelay (cfg (initRetry le1))),
                       lastTryError := Some err\<rparr>\<rparr>,
                    w1)))"

text \<open>
  The package variable \<^verbatim>\<open>globalLeaderEngine\<close>, a pointer: \<open>None\<close> is \<^verbatim>\<open>nil\<close>, and
  \<open>Some (p, le)\<close> the engine \<open>le\<close> at the address \<open>p\<close>. \<open>allocated\<close> counts the engines
  created so far and gives each new engine its address, so that two engines are the
  same instance exactly when their addresses are equal.
\<close>

record globals =
  allocated :: nat
  globalLeaderEngine :: "(nat \<times> LeaderEngine) option"

definition ResetGlobalLeaderEngine :: "globals \<Rightarrow> globals" where
  "ResetGlobalLeaderEngine g = g\<lparr>globalLeaderEngine := None\<rparr>"

definition leaderElection_Config :: Config where
  "leaderElection_Config =
     \<lparr>Name = ''leaderElection'', Strategy = RetryCountStrategy, RetryCount = 10,
      RetryDelay = 30 * Second\<rparr>"

text \<open>
  The block \<^verbatim>\<open>if globalLeaderEngine == nil { ... }\<close> of \<^verbatim>\<open>GetCustomLeaderEngine\<close>: the
  globals after it.
\<close>

definition ensure_global :: "env \<Rightarrow> string \<Rightarrow> Duration \<Rightarrow> globals \<Rightarrow> globals" where
  "ensure_global env holderIdentity ttl g =
     (if globalLeaderEngine g = None
      then (let le0 = newLeaderEngine env;
                le1 = le0\<lparr>HolderIdentity := holderIdentity\<rparr>;
                le2 = le1\<lparr>LeaseDuration := ttl\<rparr>;
                le3 = le2\<lparr>initRetry := SetupRetrier leaderElection_Config (initRetry le2)\<rparr>
            in \<lparr>allocated = Suc (allocated g), globalLeaderEngine = Some (allocated g, le3)\<rparr>)
      else g)"

text \<open>
  \<^verbatim>\<open>GetCustomLeaderEngine\<close> returns a pointer and an error: here the address of the
  engine or \<open>None\<close> for \<^verbatim>\<open>nil\<close>, beside the error. After the block above the global
  is not \<^verbatim>\<open>nil\<close>; dereferencing a \<^verbatim>\<open>nil\<close> global would panic (\<open>Inl ()\<close>), which
  \<open>ensure_global_not_nil\<close> below excludes.
\<close>

definition GetCustomLeaderEngine ::
  "env \<Rightarrow> string \<Rightarrow> Duration \<Rightarrow> globals \<Rightarrow> world \<Rightarrow>
     unit + ((nat option \<times> error option) \<times> globals \<times> world)" where
  "GetCustomLeaderEngine env holderIdentity ttl g w =
     (let g1 = ensure_global env holderIdentity ttl g
      in case globalLeaderEngine g1 of
           None \<Rightarrow> Inl ()
         | Some (p, le) \<Rightarrow>
             (case TriggerRetry env le w of
                (Some err, le', w') \<Rightarrow>
                  Inr ((None, Some err), g1\<lparr>globalLeaderEngine := Some (p, le')\<rparr>, w')
              | (None, le', w') \<Rightarrow>
                  Inr ((Some p, None), g1\<lparr>globalLeaderEngine := Some (p, le')\<rparr>, w')))"

definition GetLeaderEngine ::
  "env \<Rightarrow> globals \<Rightarrow> world \<Rightarrow> unit + ((nat option \<times> error option) \<times> globals \<times> world)" where
  "GetLeaderEngine env g w = GetCustomLeaderEngine env [] defaultLeaderLeaseDuration g w"

subsection \<open>Ensuring that the election runs\<close>

definition timeoutDuration :: Duration where
  "timeoutDuration = clientTimeout * 2"

definition tickPeriod :: Duration where
  "tickPeriod = Millisecond * 500"

text \<open>
  \<^verbatim>\<open>le.once.Do(f)\<close>: \<open>f\<close> runs unless the guard has fired, and the guard fires. \<open>f\<close>
  is \<^verbatim>\<open>go le.leaderElector.Run()\<close>. On an engine whose \<open>leaderElector\<close> is \<^verbatim>\<open>nil\<close> (as
  \<^verbatim>\<open>newLeaderEngine\<close> leaves it until \<^verbatim>\<open>init\<close> has built one) the goroutine panics on
  the \<^verbatim>\<open>nil\<close> receiver and the process dies: the call does not return, which is
  \<open>Inl ()\<close>. On an engine that has an elector the run loop is launched; what it then
  does is the election primitive's and is seen here only through \<open>holder_writes\<close>.
\<close>

definition once_Do :: "LeaderEngine \<Rightarrow> unit + LeaderEngine" where
  "once_Do le =
     (if once le then Inr le
      else (case leaderElector le of
              None \<Rightarrow> Inl ()
            | Some elector \<Rightarrow> Inr (le\<lparr>once := True, launches := Suc (launches le)\<rparr>)))"

definition callback_write :: "env \<Rightarrow> nat \<Rightarrow> LeaderEngine \<Rightarrow> LeaderEngine" where
  "callback_write env k le =
     (case holder_writes env k of
        None \<Rightarrow> le
      | Some name \<Rightarrow> le\<lparr>currentHolderIdentity := name\<rparr>)"

text \<open>
  The channels of the \<^verbatim>\<open>select\<close>: the ticker delivers its k-th tick \<open>k\<close> periods after
  the call (k = 1, 2, ...), the timer fires once after \<open>timeoutDuration\<close>. The k-th
  tick is taken when it comes before the timeout, or together with it and the
  \<^verbatim>\<open>select\<close> picks the tick; otherwise the timeout case is taken. Ticks are assumed to
  be handled when they are due.
\<close>

definition tick_fires :: "env \<Rightarrow> nat \<Rightarrow> bool" where
  "tick_fires env k =
     (int k * sint tickPeriod < sint timeoutDuration \<or>
      (int k * sint tickPeriod = sint timeoutDuration \<and> tick_wins_tie env))"

text \<open>
  The loop \<^verbatim>\<open>for { select { ... } }\<close>, at the k-th time a case is taken. Whichever case
  it is, the field \<open>currentHolderIdentity\<close> then holds what the callback wrote since
  the case before (\<open>callback_write\<close>): the tick case reads it, the timeout case leaves
  it in the engine.
\<close>

function select_loop :: "env \<Rightarrow> nat \<Rightarrow> LeaderEngine \<Rightarrow> error option \<times> LeaderEngine" where
  "select_loop env k le =
     (let le1 = callback_write env k le
      in if tick_fires env k
         then (let leaderIdentity = CurrentLeaderName le1
               in if leaderIdentity \<noteq> [] then (None, le1\<lparr>running := True\<rparr>)
                  else select_loop env (Suc k) le1)
         else (Some (TimeoutError timeoutDuration), le1))"
  by pat_completeness auto
termination
proof (relation "measure (\<lambda>(env, k, le). 9 - k)")
  show "wf (measure (\<lambda>(env, k, le). 9 - k))"
    by simp
next
  fix env :: env and k :: nat and le le1 :: LeaderEngine and leaderIdentity :: string
  assume "tick_fires env k"
  then have "int k * 500000000 \<le> 4000000000"
    by (auto simp: tick_fires_def tickPeriod_def timeoutDuration_def clientTimeout_def
        Second_def Millisecond_def)
  then have "k \<le> 8"
    by arith
  then show "((env, Suc k, le1), (env, k, le)) \<in> measure (\<lambda>(env, k, le). 9 - k)"
    by simp
qed

declare select_loop.simps [simp del]

text \<open>
  \<^verbatim>\<open>EnsureLeaderElectionRuns\<close>: \<open>Inl ()\<close> when the launch kills the process, otherwise
  the error returned and the engine as the call leaves it.
\<close>

definition EnsureLeaderElectionRuns ::
  "env \<Rightarrow> LeaderEngine \<Rightarrow> unit + (error option \<times> LeaderEngine)" where
  "EnsureLeaderElectionRuns env le =
     (if running le then Inr (None, le)
      else (case once_Do le of
              Inl dead \<Rightarrow> Inl dead
            | Inr le1 \<Rightarrow> Inr (select_loop env 1 le1)))"

text \<open>
  Calls of \<^verbatim>\<open>EnsureLeaderElectionRuns\<close> on one engine, one after the other; no call
  follows one that killed the process.
\<close>

fun ensure_calls :: "env list \<Rightarrow> LeaderEngine \<Rightarrow> unit + LeaderEngine" where
  "ensure_calls [] le = Inr le"
| "ensure_calls (env # envs) le =
     (case EnsureLeaderElectionRuns env le of
        Inl dead \<Rightarrow> Inl dead
      | Inr (err, le1) \<Rightarrow> ensure_calls envs le1)"

text \<open>
  The value of \<open>currentHolderIdentity\<close> at the k-th case taken in a call that found
  the value \<open>name\<close> in the field: the last write of the callback up to then.
\<close>

fun holder_seen :: "env \<Rightarrow> string \<Rightarrow> nat \<Rightarrow> string" where
  "holder_seen env name 0 = name"
| "holder_seen env name (Suc k) =
     (case holder_writes env (Suc k) of
        None \<Rightarrow> holder_seen env name k
      | Some written \<Rightarrow> written)"

subsection \<open>Lease-record introspection\<close>

definition GetLeaderDetails ::
  "env \<Rightarrow> world \<Rightarrow> (LeaderElectionRecord \<times> error option) \<times> world" where
  "GetLeaderDetails env w =
     (let led = zero_LeaderElectionRecord
      in case GetAPIClient env (client_calls w) of
           Inl err \<Rightarrow> ((led, Some err), w\<lparr>client_calls := Suc (client_calls w)\<rparr>)
         | Inr c \<Rightarrow>
             (let w1 = w\<lparr>client_calls := Suc (client_calls w)\<rparr>;
                  leaderNamespace = GetResourcesNamespace env;
                  got = ConfigMaps_Get env (cm_gets w1) c leaderNamespace defaultLeaseName;
                  w2 = w1\<lparr>cm_gets := Suc (cm_gets w1)\<rparr>
              in case got of
                   Inl err \<Rightarrow> ((led, Some err), w2)
                 | Inr leaderElectionCM \<Rightarrow>
                     (case Annotations leaderElectionCM LeaderElectionRecordAnnotationKey of
                        None \<Rightarrow> ((led, Some ErrNotFound), w2)
                      | Some annotation \<Rightarrow>
                          (case json_Unmarshal env annotation led of
                             (led', Some err) \<Rightarrow> ((led', Some err), w2)
                           | (led', None) \<Rightarrow> ((led', None), w2)))))"

subsection \<open>Concrete environments and states\<close>

text \<open>
  Inputs at which the properties below are evaluated. \<open>env_ok\<close>: a host named
  \<^verbatim>\<open>node-1\<close>, no configured lease duration, a client, no coordination record yet, an
  election primitive that builds an elector, and a callback that never fires.
\<close>

definition env_ok :: env where
  "env_ok =
     \<lparr>time_Now = 0, os_Hostname = (''node-1'', None), leader_lease_duration = 0,
      GetAPIClient = (\<lambda>n. Inr (CoreV1Client 0)),
      GetResourcesNamespace = ''default'',
      ConfigMaps_Get = (\<lambda>n c ns name. Inl (StatusError ''NotFound'' ''configmaps not found'')),
      newElection = (\<lambda>le name ns ttl. (Some (LeaderElector 0), None)),
      json_Unmarshal = (\<lambda>txt led. (led, Some (ErrorString ''unexpected end of JSON input''))),
      holder_writes = (\<lambda>k. None), tick_wins_tie = False\<rparr>"

definition world0 :: world where
  "world0 = \<lparr>client_calls = 0, cm_gets = 0\<rparr>"

definition globals0 :: globals where
  "globals0 = \<lparr>allocated = 0, globalLeaderEngine = None\<rparr>"

definition env_nohost :: env where
  "env_nohost = env_ok\<lparr>os_Hostname := ([], Some (ErrorString ''hostname: not available''))\<rparr>"

definition env_configured :: env where
  "env_configured = env_ok\<lparr>leader_lease_duration := 30\<rparr>"

definition env_noclient :: env where
  "env_noclient = env_ok\<lparr>GetAPIClient := \<lambda>n. Inl (ErrorString ''no API client'')\<rparr>"

definition env_later :: env where
  "env_later = env_ok\<lparr>time_Now := 31000000000\<rparr>"

definition env_forbidden :: env where
  "env_forbidden =
     env_ok\<lparr>ConfigMaps_Get := \<lambda>n c ns name. Inl (StatusError ''Forbidden'' ''configmaps is forbidden'')\<rparr>"

definition env_elected :: env where
  "env_elected = env_ok\<lparr>holder_writes := \<lambda>k. if k = 2 then Some ''pod-a'' else None\<rparr>"

text \<open>The callback reports \<^verbatim>\<open>pod-a\<close> after the last tick taken, before the timeout.\<close>

definition env_late :: env where
  "env_late = env_ok\<lparr>holder_writes := \<lambda>k. if k = 8 then Some ''pod-a'' else None\<rparr>"

text \<open>A coordination record with the annotation, one without it, and a toy decoder.\<close>

definition cm_annotated :: ConfigMap where
  "cm_annotated = \<lparr>Annotations = [LeaderElectionRecordAnnotationKey \<mapsto> ''holderIdentity=pod-a'']\<rparr>"

definition cm_malformed :: ConfigMap where
  "cm_malformed = \<lparr>Annotations = [LeaderElectionRecordAnnotationKey \<mapsto> ''holderIdentity'']\<rparr>"

definition cm_plain :: ConfigMap where
  "cm_plain = \<lparr>Annotations = Map.empty\<rparr>"

definition decode :: "string \<Rightarrow> LeaderElectionRecord \<Rightarrow> LeaderElectionRecord \<times> error option" where
  "decode txt led =
     (if txt = ''holderIdentity=pod-a'' then (led\<lparr>led_HolderIdentity := ''pod-a''\<rparr>, None)
      else (led, Some (ErrorString ''invalid character'')))"

definition env_record :: "ConfigMap \<Rightarrow> env" where
  "env_record cm = env_ok\<lparr>ConfigMaps_Get := \<lambda>n c ns name. Inr cm, json_Unmarshal := decode\<rparr>"

definition env_flaky :: env where
  "env_flaky =
     env_ok\<lparr>ConfigMaps_Get :=
              \<lambda>n c ns name. if n = 0 then Inl (ErrorString ''request timed out'') else Inr cm_annotated,
            json_Unmarshal := decode\<rparr>"

text \<open>
  The engine \<^verbatim>\<open>GetCustomLeaderEngine("pod-a", 0)\<close> leaves behind when the API client
  cannot be built, and the same engine after a later, successful attempt.
\<close>

definition le_failed :: LeaderEngine where
  "le_failed =
     \<lparr>initRetry =
        \<lparr>cfg = leaderElection_Config, succeeded = False, tryCount = 1, nextTry = 30000000000,
         lastTryError = Some (ErrorString ''no API client'')\<rparr>,
      running = False, once = False, HolderIdentity = ''pod-a'',
      LeaseDuration = defaultLeaderLeaseDuration, LeaseName = defaultLeaseName,
      LeaderNamespace = ''default'', coreClient = None, leaderElector = None,
      currentHolderIdentity = [], launches = 0\<rparr>"

definition le_ready :: LeaderEngine where
  "le_ready =
     le_failed\<lparr>initRetry := (initRetry le_failed)\<lparr>succeeded := True\<rparr>,
               coreClient := Some (CoreV1Client 0), leaderElector := Some (LeaderElector 0)\<rparr>"

definition globals_failed :: globals where
  "globals_failed = \<lparr>allocated = 1, globalLeaderEngine = Some (0, le_failed)\<rparr>"

definition globals_ready :: globals where
  "globals_ready = \<lparr>allocated = 1, globalLeaderEngine = Some (0, le_ready)\<rparr>"

definition world1 :: world where
  "world1 = \<lparr>client_calls = 1, cm_gets = 0\<rparr>"

definition world2 :: world where
  "world2 = \<lparr>client_calls = 2, cm_gets = 1\<rparr>"

section \<open>Properties\<close>

subsection \<open>Holder queries\<close>

text \<open>
  C4: for every engine state, \<open>CurrentLeaderName\<close> returns exactly the stored
  \<open>currentHolderIdentity\<close> (its result is a string, there is no error result), and
  \<open>IsLeader\<close> is true if and only if \<open>CurrentLeaderName\<close> equals the engine's
  \<open>HolderIdentity\<close>.
\<close>

theorem holder_queries:
  "CurrentLeaderName le = currentHolderIdentity le \<and>
   IsLeader le = (CurrentLeaderName le = HolderIdentity le)"
  by (simp add: CurrentLeaderName_def IsLeader_def)

text \<open>
  C10: an engine whose \<open>HolderIdentity\<close> is the empty string and that has observed no
  holder yet (\<open>currentHolderIdentity\<close> is empty too) answers \<open>IsLeader\<close> with true.
\<close>

theorem empty_identity_is_leader:
  "HolderIdentity le = [] \<and> currentHolderIdentity le = [] \<longrightarrow> IsLeader le"
  by (simp add: IsLeader_def CurrentLeaderName_def)

text \<open>
  The engine that the accessor builds for an empty identity, before any initialization
  has resolved the host name, is such an engine.
\<close>

theorem empty_identity_is_leader_witness:
  "HolderIdentity ((newLeaderEngine env_ok)\<lparr>HolderIdentity := [], LeaseDuration := 0\<rparr>) = [] \<and>
   currentHolderIdentity ((newLeaderEngine env_ok)\<lparr>HolderIdentity := [], LeaseDuration := 0\<rparr>) = [] \<and>
   IsLeader ((newLeaderEngine env_ok)\<lparr>HolderIdentity := [], LeaseDuration := 0\<rparr>)"
  using empty_identity_is_leader
    [of "(newLeaderEngine env_ok)\<lparr>HolderIdentity := [], LeaseDuration := 0\<rparr>"]
  by (simp add: newLeaderEngine_def zero_LeaderEngine_def)

subsection \<open>Initialization\<close>

lemma init_lease_nonzero: "LeaseDuration (init_lease env le) \<noteq> 0"
  by (simp add: init_lease_def Let_def defaultLeaderLeaseDuration_def Second_def Millisecond_def)

lemma init_lease_value:
  "LeaseDuration (init_lease env le) =
     (let d = (if leader_lease_duration env \<noteq> 0 then leader_lease_duration env * Second
               else LeaseDuration le)
      in if d = 0 then defaultLeaderLeaseDuration else d)"
  by (simp add: init_lease_def Let_def)

lemma init_lease_HolderIdentity: "HolderIdentity (init_lease env le) = HolderIdentity le"
  by (simp add: init_lease_def Let_def)

lemma init_election_frame:
  "HolderIdentity (snd (init_election env le)) = HolderIdentity le"
  "LeaseDuration (snd (init_election env le)) = LeaseDuration le"
  "initRetry (snd (init_election env le)) = initRetry le"
  by (simp_all add: init_election_def split: prod.splits)

lemma init_probe_frame:
  "HolderIdentity (fst (snd (init_probe env le w))) = HolderIdentity le"
  "LeaseDuration (fst (snd (init_probe env le w))) = LeaseDuration le"
  "initRetry (fst (snd (init_probe env le w))) = initRetry le"
  by (simp_all add: init_probe_def Let_def case_prod_beta init_election_frame split: sum.splits)

lemma init_steps_frame:
  "LeaderNamespace (init_lease env (snd (init_identity env le))) = LeaderNamespace le"
  "LeaseName (init_lease env (snd (init_identity env le))) = LeaseName le"
  "leaderElector (init_lease env (snd (init_identity env le))) = leaderElector le"
  "initRetry (init_lease env (snd (init_identity env le))) = initRetry le"
  by (simp_all add: init_lease_def init_identity_def Let_def)

lemma LeaderEngine_init_past_identity:
  "HolderIdentity le \<noteq> [] \<or> snd (os_Hostname env) = None \<Longrightarrow>
   LeaderEngine_init env le w = init_probe env (init_lease env (snd (init_identity env le))) w"
  by (auto simp add: LeaderEngine_init_def init_identity_def)

lemma LeaderEngine_init_initRetry:
  "initRetry (fst (snd (LeaderEngine_init env le w))) = initRetry le"
proof (cases "HolderIdentity le \<noteq> [] \<or> snd (os_Hostname env) = None")
  case True
  then show ?thesis
    by (simp only: LeaderEngine_init_past_identity init_probe_frame init_steps_frame)
next
  case False
  then show ?thesis
    by (auto simp add: LeaderEngine_init_def init_identity_def)
qed

text \<open>
  C7: \<^verbatim>\<open>init\<close> resolves an empty \<open>HolderIdentity\<close> to the host name, and the attempt
  fails with the error of \<^verbatim>\<open>os.Hostname\<close> when there is one; a \<open>HolderIdentity\<close> that
  is set is kept. Past that step, a nonzero configured \<^verbatim>\<open>leader_lease_duration\<close>
  (in seconds) replaces the engine's \<open>LeaseDuration\<close>, a \<open>LeaseDuration\<close> that is then
  zero becomes the default of 60 seconds, and so the \<open>LeaseDuration\<close> is never zero.
\<close>

theorem init_identity_and_lease:
  "(HolderIdentity le = [] \<and> snd (os_Hostname env) = Some e \<longrightarrow>
      LeaderEngine_init env le w = (Some e, le\<lparr>HolderIdentity := fst (os_Hostname env)\<rparr>, w)) \<and>
   (HolderIdentity le = [] \<and> snd (os_Hostname env) = None \<longrightarrow>
      HolderIdentity (fst (snd (LeaderEngine_init env le w))) = fst (os_Hostname env)) \<and>
   (HolderIdentity le \<noteq> [] \<longrightarrow>
      HolderIdentity (fst (snd (LeaderEngine_init env le w))) = HolderIdentity le) \<and>
   (HolderIdentity le \<noteq> [] \<or> snd (os_Hostname env) = None \<longrightarrow>
      LeaseDuration (fst (snd (LeaderEngine_init env le w))) =
        (let d = (if leader_lease_duration env \<noteq> 0 then leader_lease_duration env * Second
                  else LeaseDuration le)
         in if d = 0 then defaultLeaderLeaseDuration else d) \<and>
      LeaseDuration (fst (snd (LeaderEngine_init env le w))) \<noteq> 0) \<and>
   sint defaultLeaderLeaseDuration = 60 * 1000000000"
proof -
  have c1: "HolderIdentity le = [] \<and> snd (os_Hostname env) = Some e \<longrightarrow>
      LeaderEngine_init env le w = (Some e, le\<lparr>HolderIdentity := fst (os_Hostname env)\<rparr>, w)"
    by (simp add: LeaderEngine_init_def init_identity_def)
  have c2: "HolderIdentity le = [] \<and> snd (os_Hostname env) = None \<longrightarrow>
      HolderIdentity (fst (snd (LeaderEngine_init env le w))) = fst (os_Hostname env)"
    by (simp add: LeaderEngine_init_def init_identity_def init_probe_frame init_lease_HolderIdentity)
  have c3: "HolderIdentity le \<noteq> [] \<longrightarrow>
      HolderIdentity (fst (snd (LeaderEngine_init env le w))) = HolderIdentity le"
    by (simp add: LeaderEngine_init_def init_identity_def init_probe_frame init_lease_HolderIdentity)
  have c4: "HolderIdentity le \<noteq> [] \<or> snd (os_Hostname env) = None \<longrightarrow>
      LeaseDuration (fst (snd (LeaderEngine_init env le w))) =
        (let d = (if leader_lease_duration env \<noteq> 0 then leader_lease_duration env * Second
                  else LeaseDuration le)
         in if d = 0 then defaultLeaderLeaseDuration else d)"
    by (auto simp add: LeaderEngine_init_def init_identity_def init_probe_frame init_lease_value)
  have c5: "HolderIdentity le \<noteq> [] \<or> snd (os_Hostname env) = None \<longrightarrow>
      LeaseDuration (fst (snd (LeaderEngine_init env le w))) \<noteq> 0"
    by (auto simp add: LeaderEngine_init_def init_identity_def init_probe_frame init_lease_nonzero)
  have c6: "sint defaultLeaderLeaseDuration = 60 * 1000000000"
    by (simp add: defaultLeaderLeaseDuration_def Second_def Millisecond_def)
  from c1 c2 c3 c4 c5 c6 show ?thesis by blast
qed

text \<open>
  At a fresh engine: the attempt fails when the host has no name; otherwise the engine
  gets the host name and the default lease. At an engine named \<^verbatim>\<open>pod-a\<close> with 30
  seconds configured: the name is kept and the lease is 30 seconds.
\<close>

theorem init_identity_and_lease_witness:
  "LeaderEngine_init env_nohost (newLeaderEngine env_ok) world0 =
     (Some (ErrorString ''hostname: not available''), newLeaderEngine env_ok, world0) \<and>
   HolderIdentity (fst (snd (LeaderEngine_init env_ok (newLeaderEngine env_ok) world0))) = ''node-1'' \<and>
   LeaseDuration (fst (snd (LeaderEngine_init env_ok (newLeaderEngine env_ok) world0))) =
     defaultLeaderLeaseDuration \<and>
   HolderIdentity (fst (snd (LeaderEngine_init env_configured le_failed world0))) = ''pod-a'' \<and>
   LeaseDuration (fst (snd (LeaderEngine_init env_configured le_failed world0))) = 30 * Second"
proof -
  let ?new = "newLeaderEngine env_ok"
  have new: "HolderIdentity ?new = []" "LeaseDuration ?new = 0"
    by (simp_all add: newLeaderEngine_def zero_LeaderEngine_def)
  have nohost: "snd (os_Hostname env_nohost) = Some (ErrorString ''hostname: not available'')"
      "fst (os_Hostname env_nohost) = []"
    by (simp_all add: env_nohost_def)
  have ok: "snd (os_Hostname env_ok) = None" "fst (os_Hostname env_ok) = ''node-1''"
      "leader_lease_duration env_ok = 0"
    by (simp_all add: env_ok_def)
  have conf: "leader_lease_duration env_configured = 30"
    by (simp add: env_configured_def)
  have failed: "HolderIdentity le_failed = ''pod-a''"
    by (simp add: le_failed_def)
  have same: "?new\<lparr>HolderIdentity := []\<rparr> = ?new"
    by (simp add: newLeaderEngine_def zero_LeaderEngine_def)
  have w1: "LeaderEngine_init env_nohost ?new world0 =
      (Some (ErrorString ''hostname: not available''), ?new, world0)"
    using init_identity_and_lease
      [of ?new env_nohost "ErrorString ''hostname: not available''" world0] new nohost same
    by simp
  have w2: "HolderIdentity (fst (snd (LeaderEngine_init env_ok ?new world0))) = ''node-1'' \<and>
      LeaseDuration (fst (snd (LeaderEngine_init env_ok ?new world0))) = defaultLeaderLeaseDuration"
    using init_identity_and_lease [of ?new env_ok ErrNotFound world0] new ok
    by simp
  have w3: "HolderIdentity (fst (snd (LeaderEngine_init env_configured le_failed world0))) = ''pod-a'' \<and>
      LeaseDuration (fst (snd (LeaderEngine_init env_configured le_failed world0))) = 30 * Second"
    using init_identity_and_lease [of le_failed env_configured ErrNotFound world0] conf failed
    by (simp add: Second_def Millisecond_def)
  from w1 w2 w3 show ?thesis by simp
qed

text \<open>
  C8: in an attempt that reaches the probe of the coordination record (the identity is
  resolved, the client \<open>c\<close> is there) and whose probe answers with the error \<open>e\<close>: if \<open>e\<close>
  is not a not-found error the attempt ends with \<open>e\<close> and no elector is built; if \<open>e\<close> is
  a not-found error the attempt goes on to \<^verbatim>\<open>newElection\<close>, whose results become the
  attempt's error and the engine's elector, exactly as if the record had been found.
  \<open>le3\<close> is the engine when the probe is made.
\<close>

theorem init_probe_tolerates_not_found:
  assumes id_ok: "HolderIdentity le \<noteq> [] \<or> snd (os_Hostname env) = None"
    and client: "GetAPIClient env (client_calls w) = Inr c"
    and probe: "ConfigMaps_Get env (cm_gets w) c (LeaderNamespace le) defaultLeaseName = Inl e"
    and le3: "le3 = (init_lease env (snd (init_identity env le)))\<lparr>coreClient := Some c\<rparr>"
  shows "(\<not> IsNotFound e \<longrightarrow>
            fst (LeaderEngine_init env le w) = Some e \<and>
            leaderElector (fst (snd (LeaderEngine_init env le w))) = leaderElector le) \<and>
         (IsNotFound e \<longrightarrow>
            fst (LeaderEngine_init env le w) =
              snd (newElection env le3 (LeaseName le) (LeaderNamespace le) (LeaseDuration le3)) \<and>
            leaderElector (fst (snd (LeaderEngine_init env le w))) =
              fst (newElection env le3 (LeaseName le) (LeaderNamespace le) (LeaseDuration le3)) \<and>
            LeaderEngine_init env le w =
              LeaderEngine_init (env\<lparr>ConfigMaps_Get := \<lambda>n c ns name. Inr cm\<rparr>) le w)"
proof -
  let ?le2 = "init_lease env (snd (init_identity env le))"
  let ?w2 = "w\<lparr>client_calls := Suc (client_calls w), cm_gets := Suc (cm_gets w)\<rparr>"
  have run: "LeaderEngine_init env le w = init_probe env ?le2 w"
    using id_ok by (rule LeaderEngine_init_past_identity)
  have abort: "\<not> IsNotFound e \<Longrightarrow> init_probe env ?le2 w = (Some e, le3, ?w2)"
    using client probe by (simp add: init_probe_def Let_def init_steps_frame le3)
  have go: "IsNotFound e \<Longrightarrow>
      init_probe env ?le2 w = (fst (init_election env le3), snd (init_election env le3), ?w2)"
    using client probe by (simp add: init_probe_def Let_def init_steps_frame le3 case_prod_beta)
  have el: "init_election env le3 =
      (snd (newElection env le3 (LeaseName le) (LeaderNamespace le) (LeaseDuration le3)),
       le3\<lparr>leaderElector :=
             fst (newElection env le3 (LeaseName le) (LeaderNamespace le) (LeaseDuration le3))\<rparr>)"
    by (simp add: init_election_def case_prod_beta le3 init_steps_frame)
  let ?env' = "env\<lparr>ConfigMaps_Get := \<lambda>n c ns name. Inr cm\<rparr>"
  have id': "init_identity ?env' le = init_identity env le"
    by (simp add: init_identity_def)
  have lease': "init_lease ?env' l = init_lease env l" for l
    by (simp add: init_lease_def)
  have el': "init_election ?env' l = init_election env l" for l
    by (simp add: init_election_def)
  have run': "LeaderEngine_init ?env' le w = init_probe ?env' ?le2 w"
    using id_ok LeaderEngine_init_past_identity [of le ?env' w] by (simp add: id' lease')
  have found: "init_probe ?env' ?le2 w =
      (fst (init_election env le3), snd (init_election env le3), ?w2)"
    using client by (simp add: init_probe_def Let_def init_steps_frame le3 case_prod_beta el')
  have p1: "\<not> IsNotFound e \<longrightarrow>
      fst (LeaderEngine_init env le w) = Some e \<and>
      leaderElector (fst (snd (LeaderEngine_init env le w))) = leaderElector le"
    using abort by (simp add: run le3 init_steps_frame)
  have p2: "IsNotFound e \<longrightarrow>
      fst (LeaderEngine_init env le w) =
        snd (newElection env le3 (LeaseName le) (LeaderNamespace le) (LeaseDuration le3)) \<and>
      leaderElector (fst (snd (LeaderEngine_init env le w))) =
        fst (newElection env le3 (LeaseName le) (LeaderNamespace le) (LeaseDuration le3))"
    using go by (simp add: run el)
  have p3: "IsNotFound e \<longrightarrow> LeaderEngine_init env le w = LeaderEngine_init ?env' le w"
    using go found by (simp add: run run')
  from p1 p2 p3 show ?thesis by blast
qed

text \<open>
  A fresh engine: a probe that is forbidden ends the attempt with that error and leaves
  the engine without an elector; a probe that finds no record lets the attempt succeed
  with the elector built.
\<close>

theorem init_probe_tolerates_not_found_witness:
  "fst (LeaderEngine_init env_forbidden (newLeaderEngine env_ok) world0) =
     Some (StatusError ''Forbidden'' ''configmaps is forbidden'') \<and>
   leaderElector (fst (snd (LeaderEngine_init env_forbidden (newLeaderEngine env_ok) world0))) = None \<and>
   fst (LeaderEngine_init env_ok (newLeaderEngine env_ok) world0) = None \<and>
   leaderElector (fst (snd (LeaderEngine_init env_ok (newLeaderEngine env_ok) world0))) =
     Some (LeaderElector 0)"
proof -
  let ?new = "newLeaderEngine env_ok"
  let ?forbidden = "StatusError ''Forbidden'' ''configmaps is forbidden''"
  let ?missing = "StatusError ''NotFound'' ''configmaps not found''"
  have new: "leaderElector ?new = None"
    by (simp add: newLeaderEngine_def zero_LeaderEngine_def)
  have f1: "HolderIdentity ?new \<noteq> [] \<or> snd (os_Hostname env_forbidden) = None"
    by (simp add: env_forbidden_def env_ok_def)
  have f2: "GetAPIClient env_forbidden (client_calls world0) = Inr (CoreV1Client 0)"
    by (simp add: env_forbidden_def env_ok_def)
  have f3: "ConfigMaps_Get env_forbidden (cm_gets world0) (CoreV1Client 0) (LeaderNamespace ?new)
      defaultLeaseName = Inl ?forbidden"
    by (simp add: env_forbidden_def env_ok_def)
  have f4: "\<not> IsNotFound ?forbidden"
    by simp
  have w1: "fst (LeaderEngine_init env_forbidden ?new world0) = Some ?forbidden \<and>
      leaderElector (fst (snd (LeaderEngine_init env_forbidden ?new world0))) = None"
    using init_probe_tolerates_not_found [OF f1 f2 f3 refl, of cm_plain] f4 new
    by metis
  have o1: "HolderIdentity ?new \<noteq> [] \<or> snd (os_Hostname env_ok) = None"
    by (simp add: env_ok_def)
  have o2: "GetAPIClient env_ok (client_calls world0) = Inr (CoreV1Client 0)"
    by (simp add: env_ok_def)
  have o3: "ConfigMaps_Get env_ok (cm_gets world0) (CoreV1Client 0) (LeaderNamespace ?new)
      defaultLeaseName = Inl ?missing"
    by (simp add: env_ok_def)
  have o4: "IsNotFound ?missing"
    by simp
  have o5: "newElection env_ok l name ns ttl = (Some (LeaderElector 0), None)" for l name ns ttl
    by (simp add: env_ok_def)
  have w2: "fst (LeaderEngine_init env_ok ?new world0) = None \<and>
      leaderElector (fst (snd (LeaderEngine_init env_ok ?new world0))) = Some (LeaderElector 0)"
    using init_probe_tolerates_not_found [OF o1 o2 o3 refl, of cm_plain] o4 o5
    by (metis fst_conv snd_conv)
  from w1 w2 show ?thesis by simp
qed

subsection \<open>Lease-record introspection\<close>

text \<open>
  C9: \<^verbatim>\<open>GetLeaderDetails\<close> hands each failure to its caller at once. The record cannot be
  read (no client, or the \<^verbatim>\<open>Get\<close> request fails): the result is that error. The record
  is read and has no leader-election annotation: the result is \<open>ErrNotFound\<close>, which is
  not a not-found error of the API. The annotation is there: the result is what the JSON
  decoder returns, its error when the text is malformed, the decoded record and no
  error otherwise. One client is asked for and at most one \<^verbatim>\<open>Get\<close> request is made,
  whatever the answers.
\<close>

theorem GetLeaderDetails_errors:
  "(GetAPIClient env (client_calls w) = Inl e \<longrightarrow>
      fst (GetLeaderDetails env w) = (zero_LeaderElectionRecord, Some e)) \<and>
   (GetAPIClient env (client_calls w) = Inr c \<and>
    ConfigMaps_Get env (cm_gets w) c (GetResourcesNamespace env) defaultLeaseName = Inl e \<longrightarrow>
      fst (GetLeaderDetails env w) = (zero_LeaderElectionRecord, Some e)) \<and>
   (GetAPIClient env (client_calls w) = Inr c \<and>
    ConfigMaps_Get env (cm_gets w) c (GetResourcesNamespace env) defaultLeaseName = Inr cm \<and>
    Annotations cm LeaderElectionRecordAnnotationKey = None \<longrightarrow>
      fst (GetLeaderDetails env w) = (zero_LeaderElectionRecord, Some ErrNotFound)) \<and>
   (GetAPIClient env (client_calls w) = Inr c \<and>
    ConfigMaps_Get env (cm_gets w) c (GetResourcesNamespace env) defaultLeaseName = Inr cm \<and>
    Annotations cm LeaderElectionRecordAnnotationKey = Some annotation \<longrightarrow>
      fst (GetLeaderDetails env w) = json_Unmarshal env annotation zero_LeaderElectionRecord) \<and>
   client_calls (snd (GetLeaderDetails env w)) = Suc (client_calls w) \<and>
   cm_gets (snd (GetLeaderDetails env w)) \<le> Suc (cm_gets w) \<and>
   \<not> IsNotFound ErrNotFound"
proof -
  have p1: "GetAPIClient env (client_calls w) = Inl e \<longrightarrow>
      fst (GetLeaderDetails env w) = (zero_LeaderElectionRecord, Some e)"
    by (simp add: GetLeaderDetails_def)
  have p2: "GetAPIClient env (client_calls w) = Inr c \<and>
    ConfigMaps_Get env (cm_gets w) c (GetResourcesNamespace env) defaultLeaseName = Inl e \<longrightarrow>
      fst (GetLeaderDetails env w) = (zero_LeaderElectionRecord, Some e)"
    by (simp add: GetLeaderDetails_def)
  have p3: "GetAPIClient env (client_calls w) = Inr c \<and>
    ConfigMaps_Get env (cm_gets w) c (GetResourcesNamespace env) defaultLeaseName = Inr cm \<and>
    Annotations cm LeaderElectionRecordAnnotationKey = None \<longrightarrow>
      fst (GetLeaderDetails env w) = (zero_LeaderElectionRecord, Some ErrNotFound)"
    by (simp add: GetLeaderDetails_def)
  have p4: "GetAPIClient env (client_calls w) = Inr c \<and>
    ConfigMaps_Get env (cm_gets w) c (GetResourcesNamespace env) defaultLeaseName = Inr cm \<and>
    Annotations cm LeaderElectionRecordAnnotationKey = Some annotation \<longrightarrow>
      fst (GetLeaderDetails env w) = json_Unmarshal env annotation zero_LeaderElectionRecord"
    by (auto simp add: GetLeaderDetails_def Let_def split: prod.splits option.splits)
  have p5: "client_calls (snd (GetLeaderDetails env w)) = Suc (client_calls w)"
    by (simp add: GetLeaderDetails_def Let_def split: sum.splits prod.splits option.splits)
  have p6: "cm_gets (snd (GetLeaderDetails env w)) \<le> Suc (cm_gets w)"
    by (simp add: GetLeaderDetails_def Let_def split: sum.splits prod.splits option.splits)
  from p1 p2 p3 p4 p5 p6 show ?thesis by simp
qed

text \<open>
  One input for each case: no client; a request that fails the first time and would
  succeed the second time (the first error is returned and one request is made); a
  record without the annotation; an annotation that does not decode; one that does.
\<close>

theorem GetLeaderDetails_errors_witness:
  "fst (GetLeaderDetails env_noclient world0) =
     (zero_LeaderElectionRecord, Some (ErrorString ''no API client'')) \<and>
   fst (GetLeaderDetails env_flaky world0) =
     (zero_LeaderElectionRecord, Some (ErrorString ''request timed out'')) \<and>
   cm_gets (snd (GetLeaderDetails env_flaky world0)) \<le> 1 \<and>
   fst (GetLeaderDetails (env_record cm_plain) world0) =
     (zero_LeaderElectionRecord, Some ErrNotFound) \<and>
   fst (GetLeaderDetails (env_record cm_malformed) world0) =
     (zero_LeaderElectionRecord, Some (ErrorString ''invalid character'')) \<and>
   fst (GetLeaderDetails (env_record cm_annotated) world0) =
     (zero_LeaderElectionRecord\<lparr>led_HolderIdentity := ''pod-a''\<rparr>, None)"
proof -
  have w0: "client_calls world0 = 0" "cm_gets world0 = 0"
    by (simp_all add: world0_def)
  have noclient: "GetAPIClient env_noclient 0 = Inl (ErrorString ''no API client'')"
    by (simp add: env_noclient_def)
  have flaky: "GetAPIClient env_flaky 0 = Inr (CoreV1Client 0)"
      "ConfigMaps_Get env_flaky 0 (CoreV1Client 0) (GetResourcesNamespace env_flaky) defaultLeaseName =
         Inl (ErrorString ''request timed out'')"
    by (simp_all add: env_flaky_def env_ok_def)
  have rec: "GetAPIClient (env_record cm) 0 = Inr (CoreV1Client 0)"
      "ConfigMaps_Get (env_record cm) 0 (CoreV1Client 0) (GetResourcesNamespace (env_record cm))
         defaultLeaseName = Inr cm"
      "json_Unmarshal (env_record cm) = decode" for cm
    by (simp_all add: env_record_def env_ok_def)
  have plain: "Annotations cm_plain LeaderElectionRecordAnnotationKey = None"
    by (simp add: cm_plain_def)
  have malformed: "Annotations cm_malformed LeaderElectionRecordAnnotationKey = Some ''holderIdentity''"
    by (simp add: cm_malformed_def)
  have annotated:
    "Annotations cm_annotated LeaderElectionRecordAnnotationKey = Some ''holderIdentity=pod-a''"
    by (simp add: cm_annotated_def)
  have d1: "decode ''holderIdentity'' zero_LeaderElectionRecord =
      (zero_LeaderElectionRecord, Some (ErrorString ''invalid character''))"
    by (simp add: decode_def)
  have d2: "decode ''holderIdentity=pod-a'' zero_LeaderElectionRecord =
      (zero_LeaderElectionRecord\<lparr>led_HolderIdentity := ''pod-a''\<rparr>, None)"
    by (simp add: decode_def)
  have w1: "fst (GetLeaderDetails env_noclient world0) =
      (zero_LeaderElectionRecord, Some (ErrorString ''no API client''))"
    using GetLeaderDetails_errors
      [of env_noclient world0 "ErrorString ''no API client''" "CoreV1Client 0" cm_plain "[]"]
      noclient
    by (simp add: w0)
  have w2: "fst (GetLeaderDetails env_flaky world0) =
        (zero_LeaderElectionRecord, Some (ErrorString ''request timed out'')) \<and>
      cm_gets (snd (GetLeaderDetails env_flaky world0)) \<le> 1"
    using GetLeaderDetails_errors
      [of env_flaky world0 "ErrorString ''request timed out''" "CoreV1Client 0" cm_plain "[]"]
      flaky
    by (simp add: w0)
  have w3: "fst (GetLeaderDetails (env_record cm_plain) world0) =
      (zero_LeaderElectionRecord, Some ErrNotFound)"
    using GetLeaderDetails_errors
      [of "env_record cm_plain" world0 ErrNotFound "CoreV1Client 0" cm_plain "[]"]
      rec [of cm_plain] plain
    by (simp add: w0)
  have w4: "fst (GetLeaderDetails (env_record cm_malformed) world0) =
      (zero_LeaderElectionRecord, Some (ErrorString ''invalid character''))"
    using GetLeaderDetails_errors
      [of "env_record cm_malformed" world0 ErrNotFound "CoreV1Client 0" cm_malformed
        "''holderIdentity''"]
      rec [of cm_malformed] malformed d1
    by (simp add: w0)
  have w5: "fst (GetLeaderDetails (env_record cm_annotated) world0) =
      (zero_LeaderElectionRecord\<lparr>led_HolderIdentity := ''pod-a''\<rparr>, None)"
    using GetLeaderDetails_errors
      [of "env_record cm_annotated" world0 ErrNotFound "CoreV1Client 0" cm_annotated
        "''holderIdentity=pod-a''"]
      rec [of cm_annotated] annotated d2
    by (simp add: w0)
  from w1 w2 w3 w4 w5 show ?thesis by simp
qed

subsection \<open>The singleton accessor\<close>

lemma ensure_global_not_nil: "globalLeaderEngine (ensure_global env h ttl g) \<noteq> None"
  by (simp add: ensure_global_def Let_def)

lemma ensure_global_existing:
  "globalLeaderEngine g = Some (p, le) \<Longrightarrow> ensure_global env h ttl g = g"
  by (simp add: ensure_global_def)

lemma GetCustomLeaderEngine_unfold:
  "globalLeaderEngine (ensure_global env h ttl g) = Some (p, le) \<Longrightarrow>
   GetCustomLeaderEngine env h ttl g w =
     Inr ((case fst (TriggerRetry env le w) of
             None \<Rightarrow> (Some p, None)
           | Some err \<Rightarrow> (None, Some err)),
          (ensure_global env h ttl g)\<lparr>globalLeaderEngine := Some (p, fst (snd (TriggerRetry env le w)))\<rparr>,
          snd (snd (TriggerRetry env le w)))"
proof -
  assume g: "globalLeaderEngine (ensure_global env h ttl g) = Some (p, le)"
  obtain r le' w' where t: "TriggerRetry env le w = (r, le', w')"
    by (cases "TriggerRetry env le w") auto
  show ?thesis
    using g t by (cases r) (simp_all add: GetCustomLeaderEngine_def)
qed

text \<open>The accessor always returns: the global is never \<^verbatim>\<open>nil\<close> when it is dereferenced.\<close>

lemma GetCustomLeaderEngine_returns: "\<exists>r. GetCustomLeaderEngine env h ttl g w = Inr r"
proof -
  obtain p le where "globalLeaderEngine (ensure_global env h ttl g) = Some (p, le)"
    using ensure_global_not_nil [of env h ttl g]
    by (cases "globalLeaderEngine (ensure_global env h ttl g)") auto
  then show ?thesis
    by (simp add: GetCustomLeaderEngine_unfold)
qed

text \<open>
  The retry wrapper reports success exactly when its memo is set afterwards, and a
  trigger on a wrapper whose memo is set changes nothing.
\<close>

lemma TriggerRetry_reports:
  "(fst (TriggerRetry env le w) = None) = succeeded (initRetry (fst (snd (TriggerRetry env le w))))"
proof -
  have "succeeded (initRetry (fst (snd (LeaderEngine_init env le w)))) = succeeded (initRetry le)"
    by (simp only: LeaderEngine_init_initRetry)
  then show ?thesis
    by (auto simp add: TriggerRetry_def Let_def split: prod.splits option.splits)
qed

lemma TriggerRetry_attempt:
  assumes "\<not> succeeded (initRetry le)"
    and "tryCount (initRetry le) < RetryCount (cfg (initRetry le))"
    and "nextTry (initRetry le) \<le> time_Now env"
  shows "fst (TriggerRetry env le w) = fst (LeaderEngine_init env le w)"
proof -
  obtain r le1 w1 where i: "LeaderEngine_init env le w = (r, le1, w1)"
    by (cases "LeaderEngine_init env le w") auto
  show ?thesis
    using assms i by (cases r) (simp_all add: TriggerRetry_def Let_def)
qed

lemma TriggerRetry_memo: "succeeded (initRetry le) \<Longrightarrow> TriggerRetry env le w = (None, le, w)"
  by (simp add: TriggerRetry_def)

text \<open>
  C5: let \<open>p\<close> be the address of the engine the global points to when the retry is
  triggered, and \<open>le\<close> that engine. \<^verbatim>\<open>GetCustomLeaderEngine\<close> returns: if the trigger
  reports no error, the engine \<open>p\<close> and no error; if the trigger reports the error
  \<open>err\<close>, a \<^verbatim>\<open>nil\<close> engine and \<open>err\<close>. So the engine is returned if and only if the
  trigger reports success. \<^verbatim>\<open>GetLeaderEngine\<close> is the same call with the default
  arguments.
\<close>

theorem accessor_result:
  assumes "globalLeaderEngine (ensure_global env h ttl g) = Some (p, le)"
  shows "(\<exists>g' w'. GetCustomLeaderEngine env h ttl g w =
            Inr ((case fst (TriggerRetry env le w) of
                    None \<Rightarrow> (Some p, None)
                  | Some err \<Rightarrow> (None, Some err)), g', w') \<and>
            globalLeaderEngine g' = Some (p, fst (snd (TriggerRetry env le w)))) \<and>
         (\<forall>r. GetCustomLeaderEngine env h ttl g w = Inr r \<longrightarrow>
            (fst (fst r) = Some p) = (fst (TriggerRetry env le w) = None) \<and>
            (fst (fst r) = None) = (fst (TriggerRetry env le w) \<noteq> None) \<and>
            snd (fst r) = fst (TriggerRetry env le w)) \<and>
         GetLeaderEngine env g w = GetCustomLeaderEngine env [] defaultLeaderLeaseDuration g w"
proof -
  note run = GetCustomLeaderEngine_unfold [OF assms, of w]
  have p1: "\<exists>g' w'. GetCustomLeaderEngine env h ttl g w =
            Inr ((case fst (TriggerRetry env le w) of
                    None \<Rightarrow> (Some p, None)
                  | Some err \<Rightarrow> (None, Some err)), g', w') \<and>
            globalLeaderEngine g' = Some (p, fst (snd (TriggerRetry env le w)))"
    by (simp add: run)
  have p2: "\<forall>r. GetCustomLeaderEngine env h ttl g w = Inr r \<longrightarrow>
            (fst (fst r) = Some p) = (fst (TriggerRetry env le w) = None) \<and>
            (fst (fst r) = None) = (fst (TriggerRetry env le w) \<noteq> None) \<and>
            snd (fst r) = fst (TriggerRetry env le w)"
    by (auto simp add: run split: option.splits)
  from p1 p2 show ?thesis
    by (simp add: GetLeaderEngine_def)
qed

text \<open>
  First access with a working environment: the engine at address 0 is returned. First
  access without an API client: \<^verbatim>\<open>nil\<close> and the client's error are returned.
\<close>

theorem accessor_result_witness:
  "fst (TriggerRetry env_ok (snd (the (globalLeaderEngine (ensure_global env_ok [] 0 globals0)))) world0) = None \<and>
   (\<exists>g' w'. GetCustomLeaderEngine env_ok [] 0 globals0 world0 = Inr ((Some 0, None), g', w')) \<and>
   (\<exists>g' w'. GetCustomLeaderEngine env_noclient [] 0 globals0 world0 =
      Inr ((None, Some (ErrorString ''no API client'')), g', w'))"
proof -
  let ?cfg = "SetupRetrier leaderElection_Config zero_Retrier"
  let ?le = "\<lambda>env. (newLeaderEngine env)\<lparr>HolderIdentity := [], LeaseDuration := 0, initRetry := ?cfg\<rparr>"
  have g: "globalLeaderEngine (ensure_global env [] 0 globals0) = Some (0, ?le env)" for env
    by (simp add: ensure_global_def globals0_def Let_def newLeaderEngine_def zero_LeaderEngine_def)
  have init_ok: "fst (LeaderEngine_init env_ok (?le env_ok) world0) = None"
    by (simp add: LeaderEngine_init_def init_identity_def init_probe_def init_election_def
        init_lease_def Let_def env_ok_def world0_def newLeaderEngine_def zero_LeaderEngine_def)
  have init_no: "fst (LeaderEngine_init env_noclient (?le env_noclient) world0) =
      Some (ErrorString ''no API client'')"
    by (simp add: LeaderEngine_init_def init_identity_def init_probe_def init_election_def
        init_lease_def Let_def env_noclient_def env_ok_def world0_def newLeaderEngine_def
        zero_LeaderEngine_def)
  have retr: "\<not> succeeded (initRetry (?le env))" "tryCount (initRetry (?le env)) = 0"
      "RetryCount (cfg (initRetry (?le env))) = 10" "nextTry (initRetry (?le env)) = 0" for env
    by (simp_all add: SetupRetrier_def zero_Retrier_def leaderElection_Config_def)
  have now: "time_Now env_ok = 0" "time_Now env_noclient = 0"
    by (simp_all add: env_ok_def env_noclient_def)
  have t_ok: "fst (TriggerRetry env_ok (?le env_ok) world0) = None"
    using init_ok retr [of env_ok] now
    by (simp add: TriggerRetry_attempt)
  have t_no: "fst (TriggerRetry env_noclient (?le env_noclient) world0) =
      Some (ErrorString ''no API client'')"
    using init_no retr [of env_noclient] now
    by (simp add: TriggerRetry_attempt)
  have w0: "fst (TriggerRetry env_ok
      (snd (the (globalLeaderEngine (ensure_global env_ok [] 0 globals0)))) world0) = None"
    using t_ok by (simp add: g)
  have w1: "\<exists>g' w'. GetCustomLeaderEngine env_ok [] 0 globals0 world0 = Inr ((Some 0, None), g', w')"
    using accessor_result [OF g, of env_ok world0] t_ok by auto
  have w2: "\<exists>g' w'. GetCustomLeaderEngine env_noclient [] 0 globals0 world0 =
      Inr ((None, Some (ErrorString ''no API client'')), g', w')"
    using accessor_result [OF g, of env_noclient world0] t_no by auto
  from w0 w1 w2 show ?thesis by blast
qed

text \<open>
  Three calls of the accessor. The first, for \<^verbatim>\<open>pod-a\<close>, creates the engine while no
  API client can be built: it returns \<^verbatim>\<open>nil\<close> and leaves the engine \<open>le_failed\<close> behind.
  A second call at once returns \<^verbatim>\<open>nil\<close> again, not the instance. A second call 31
  seconds later runs \<^verbatim>\<open>init\<close> again, which now succeeds and sets the client and the
  elector of the existing engine.
\<close>

lemma first_call_failed:
  "GetCustomLeaderEngine env_noclient ''pod-a'' 0 globals0 world0 =
     Inr ((None, Some (ErrorString ''no API client'')), globals_failed, world1)"
proof -
  let ?le = "(newLeaderEngine env_noclient)
     \<lparr>HolderIdentity := ''pod-a'', LeaseDuration := 0,
      initRetry := SetupRetrier leaderElection_Config zero_Retrier\<rparr>"
  have g: "ensure_global env_noclient ''pod-a'' 0 globals0 =
      \<lparr>allocated = 1, globalLeaderEngine = Some (0, ?le)\<rparr>"
    by (simp add: ensure_global_def globals0_def Let_def newLeaderEngine_def zero_LeaderEngine_def)
  have i: "LeaderEngine_init env_noclient ?le world0 =
      (Some (ErrorString ''no API client''), ?le\<lparr>LeaseDuration := defaultLeaderLeaseDuration\<rparr>, world1)"
    by (simp add: LeaderEngine_init_def init_identity_def init_probe_def init_lease_def Let_def
        env_noclient_def env_ok_def world0_def world1_def newLeaderEngine_def zero_LeaderEngine_def
        defaultLeaderLeaseDuration_def Second_def Millisecond_def)
  have t: "TriggerRetry env_noclient ?le world0 =
      (Some (ErrorString ''no API client''), le_failed, world1)"
    by (simp add: TriggerRetry_def Let_def i)
      (simp add: le_failed_def SetupRetrier_def zero_Retrier_def leaderElection_Config_def
        newLeaderEngine_def zero_LeaderEngine_def env_noclient_def env_ok_def Second_def
        Millisecond_def)
  show ?thesis
    by (simp add: GetCustomLeaderEngine_def g t globals_failed_def)
qed

lemma second_call_early:
  "GetCustomLeaderEngine env_ok ''pod-b'' (5 * Second) globals_failed world1 =
     Inr ((None, Some (ErrorString ''no API client'')), globals_failed, world1)"
proof -
  have g: "ensure_global env_ok ''pod-b'' (5 * Second) globals_failed = globals_failed"
    by (simp add: ensure_global_def globals_failed_def)
  have t: "TriggerRetry env_ok le_failed world1 =
      (Some (ErrorString ''no API client''), le_failed, world1)"
    by (simp add: TriggerRetry_def Let_def le_failed_def env_ok_def)
  show ?thesis
    by (simp add: GetCustomLeaderEngine_def g) (simp add: globals_failed_def t)
qed

lemma second_call_later:
  "GetCustomLeaderEngine env_later ''pod-b'' (5 * Second) globals_failed world1 =
     Inr ((Some 0, None), globals_ready, world2)"
proof -
  have g: "ensure_global env_later ''pod-b'' (5 * Second) globals_failed = globals_failed"
    by (simp add: ensure_global_def globals_failed_def)
  have i: "LeaderEngine_init env_later le_failed world1 =
      (None, le_failed\<lparr>coreClient := Some (CoreV1Client 0), leaderElector := Some (LeaderElector 0)\<rparr>,
       world2)"
    by (simp add: LeaderEngine_init_def init_identity_def init_probe_def init_lease_def
        init_election_def Let_def env_later_def env_ok_def world1_def world2_def le_failed_def
        defaultLeaderLeaseDuration_def Second_def Millisecond_def)
  have t: "TriggerRetry env_later le_failed world1 = (None, le_ready, world2)"
    by (simp add: TriggerRetry_def Let_def i)
      (simp add: le_ready_def le_failed_def leaderElection_Config_def env_later_def env_ok_def)
  show ?thesis
    by (simp add: GetCustomLeaderEngine_def g) (simp add: globals_failed_def globals_ready_def t)
qed

theorem accessor_frame_counterexample:
  "GetCustomLeaderEngine env_noclient ''pod-a'' 0 globals0 world0 =
     Inr ((None, Some (ErrorString ''no API client'')), globals_failed, world1) \<and>
   globalLeaderEngine globals_failed = Some (0, le_failed) \<and>
   GetCustomLeaderEngine env_ok ''pod-b'' (5 * Second) globals_failed world1 =
     Inr ((None, Some (ErrorString ''no API client'')), globals_failed, world1) \<and>
   GetCustomLeaderEngine env_later ''pod-b'' (5 * Second) globals_failed world1 =
     Inr ((Some 0, None), globals_ready, world2) \<and>
   globalLeaderEngine globals_ready = Some (0, le_ready) \<and>
   coreClient le_failed = None \<and>
   coreClient le_ready = Some (CoreV1Client 0) \<and>
   leaderElector le_failed = None \<and>
   leaderElector le_ready = Some (LeaderElector 0)"
  by (simp add: first_call_failed second_call_early second_call_later)
    (simp add: globals_failed_def globals_ready_def le_failed_def le_ready_def)

text \<open>
  C6, as amended: once the singleton engine exists, a call of \<^verbatim>\<open>GetCustomLeaderEngine\<close>
  does not use its identity and ttl arguments. It does what the retry trigger does on
  the existing engine: the global keeps pointing at the same instance, whose fields
  are those the trigger leaves; that instance is returned when the trigger reports
  success, and \<^verbatim>\<open>nil\<close> with the trigger's error otherwise. When initialization has
  already succeeded, no field changes and the same instance is returned.
\<close>

theorem accessor_ignores_arguments:
  assumes "globalLeaderEngine g = Some (p, le)"
  shows "GetCustomLeaderEngine env h ttl g w =
           Inr ((case fst (TriggerRetry env le w) of
                   None \<Rightarrow> (Some p, None)
                 | Some err \<Rightarrow> (None, Some err)),
                g\<lparr>globalLeaderEngine := Some (p, fst (snd (TriggerRetry env le w)))\<rparr>,
                snd (snd (TriggerRetry env le w))) \<and>
         GetCustomLeaderEngine env h ttl g w = GetCustomLeaderEngine env h' ttl' g w \<and>
         (succeeded (initRetry le) \<longrightarrow>
            GetCustomLeaderEngine env h ttl g w = Inr ((Some p, None), g, w))"
proof -
  have same: "ensure_global env a b g = g" for a b
    using assms by (rule ensure_global_existing)
  have run: "GetCustomLeaderEngine env a b g w =
           Inr ((case fst (TriggerRetry env le w) of
                   None \<Rightarrow> (Some p, None)
                 | Some err \<Rightarrow> (None, Some err)),
                g\<lparr>globalLeaderEngine := Some (p, fst (snd (TriggerRetry env le w)))\<rparr>,
                snd (snd (TriggerRetry env le w)))" for a b
    using GetCustomLeaderEngine_unfold [of env a b g p le w] assms by (simp add: same)
  have keep: "g\<lparr>globalLeaderEngine := Some (p, le)\<rparr> = g"
    using assms by simp
  have memo: "succeeded (initRetry le) \<longrightarrow>
      GetCustomLeaderEngine env h ttl g w = Inr ((Some p, None), g, w)"
    by (simp add: run TriggerRetry_memo keep)
  from run [of h ttl] run [of h' ttl'] memo show ?thesis
    by simp
qed

text \<open>
  At the engine left behind by the failed first call, 31 seconds later: the call for
  \<^verbatim>\<open>pod-b\<close> returns the instance at address 0, still named \<^verbatim>\<open>pod-a\<close>. At the
  initialized engine: nothing changes.
\<close>

theorem accessor_ignores_arguments_witness:
  "globalLeaderEngine globals_failed = Some (0, le_failed) \<and>
   GetCustomLeaderEngine env_later ''pod-b'' (5 * Second) globals_failed world1 =
     GetCustomLeaderEngine env_later ''pod-a'' 0 globals_failed world1 \<and>
   HolderIdentity le_ready = ''pod-a'' \<and>
   succeeded (initRetry le_ready) \<and>
   GetCustomLeaderEngine env_ok ''pod-b'' (5 * Second) globals_ready world2 =
     Inr ((Some 0, None), globals_ready, world2)"
proof -
  have g1: "globalLeaderEngine globals_failed = Some (0, le_failed)"
    by (simp add: globals_failed_def)
  have g2: "globalLeaderEngine globals_ready = Some (0, le_ready)"
    by (simp add: globals_ready_def)
  have ready: "succeeded (initRetry le_ready)" "HolderIdentity le_ready = ''pod-a''"
    by (simp_all add: le_ready_def le_failed_def)
  have w1: "GetCustomLeaderEngine env_later ''pod-b'' (5 * Second) globals_failed world1 =
      GetCustomLeaderEngine env_later ''pod-a'' 0 globals_failed world1"
    using accessor_ignores_arguments [OF g1, of env_later "''pod-b''" "5 * Second" world1 "''pod-a''" 0]
    by blast
  have w2: "GetCustomLeaderEngine env_ok ''pod-b'' (5 * Second) globals_ready world2 =
      Inr ((Some 0, None), globals_ready, world2)"
    using accessor_ignores_arguments [OF g2, of env_ok "''pod-b''" "5 * Second" world2] ready(1)
    by blast
  from g1 ready w1 w2 show ?thesis by simp
qed

subsection \<open>Ensuring that the election runs\<close>

lemma tick_times: "sint tickPeriod = 500000000" "sint timeoutDuration = 4000000000"
  by (simp_all add: tickPeriod_def timeoutDuration_def clientTimeout_def Second_def Millisecond_def)

lemma tick_fires_iff: "tick_fires env k = (k < 8 \<or> (k = 8 \<and> tick_wins_tie env))"
proof -
  have "(int k * 500000000 < 4000000000) = (k < 8)"
    by arith
  moreover have "(int k * 500000000 = 4000000000) = (k = 8)"
    by arith
  ultimately show ?thesis
    unfolding tick_fires_def tick_times by simp
qed

lemma tick_fires_mono: "tick_fires env j \<Longrightarrow> i \<le> j \<Longrightarrow> tick_fires env i"
  by (auto simp add: tick_fires_iff)

lemma callback_write_seen:
  "currentHolderIdentity le = holder_seen env s0 k \<Longrightarrow>
   callback_write env (Suc k) le = le\<lparr>currentHolderIdentity := holder_seen env s0 (Suc k)\<rparr>"
  by (simp add: callback_write_def split: option.splits)

lemma select_loop_stop:
  "\<not> tick_fires env k \<Longrightarrow>
   select_loop env k le = (Some (TimeoutError timeoutDuration), callback_write env k le)"
  by (subst select_loop.simps) (simp add: Let_def)

lemma select_loop_found:
  "tick_fires env k \<Longrightarrow> currentHolderIdentity (callback_write env k le) \<noteq> [] \<Longrightarrow>
   select_loop env k le = (None, (callback_write env k le)\<lparr>running := True\<rparr>)"
  by (subst select_loop.simps) (simp add: CurrentLeaderName_def Let_def)

lemma select_loop_next:
  "tick_fires env k \<Longrightarrow> currentHolderIdentity (callback_write env k le) = [] \<Longrightarrow>
   select_loop env k le = select_loop env (Suc k) (callback_write env k le)"
  by (subst select_loop.simps) (simp add: CurrentLeaderName_def Let_def)

lemma select_loop_nil:
  "select_loop env k le = (None, le') \<Longrightarrow> 1 \<le> k \<Longrightarrow>
   currentHolderIdentity le = holder_seen env s0 (k - 1) \<Longrightarrow>
   \<exists>j\<ge>k. tick_fires env j \<and> holder_seen env s0 j \<noteq> [] \<and>
         (\<forall>i. k \<le> i \<and> i < j \<longrightarrow> holder_seen env s0 i = []) \<and>
         le' = le\<lparr>currentHolderIdentity := holder_seen env s0 j, running := True\<rparr>"
proof (induction env k le rule: select_loop.induct)
  case (1 env k le)
  from "1.prems"(2) obtain m where k: "k = Suc m"
    by (cases k) auto
  let ?le1 = "callback_write env k le"
  have le1: "?le1 = le\<lparr>currentHolderIdentity := holder_seen env s0 k\<rparr>"
    using "1.prems"(3) callback_write_seen [of le env s0 m] by (simp add: k)
  have cur1: "currentHolderIdentity ?le1 = holder_seen env s0 k"
    by (simp add: le1)
  have fires: "tick_fires env k"
    using "1.prems"(1) select_loop_stop [of env k le] by auto
  show ?case
  proof (cases "holder_seen env s0 k = []")
    case False
    then have "select_loop env k le = (None, ?le1\<lparr>running := True\<rparr>)"
      using fires select_loop_found cur1 by simp
    with "1.prems"(1) have "le' = le\<lparr>currentHolderIdentity := holder_seen env s0 k, running := True\<rparr>"
      by (simp add: le1)
    with fires False show ?thesis
      by (intro exI [of _ k]) auto
  next
    case True
    then have step: "select_loop env k le = select_loop env (Suc k) ?le1"
      using fires select_loop_next cur1 by simp
    have p1: "select_loop env (Suc k) ?le1 = (None, le')"
      using step "1.prems"(1) by simp
    have p2: "\<not> CurrentLeaderName ?le1 \<noteq> []"
      using True cur1 by (simp add: CurrentLeaderName_def)
    have p3: "currentHolderIdentity ?le1 = holder_seen env s0 (Suc k - 1)"
      using cur1 by simp
    have "\<exists>j\<ge>Suc k. tick_fires env j \<and> holder_seen env s0 j \<noteq> [] \<and>
         (\<forall>i. Suc k \<le> i \<and> i < j \<longrightarrow> holder_seen env s0 i = []) \<and>
         le' = ?le1\<lparr>currentHolderIdentity := holder_seen env s0 j, running := True\<rparr>"
      by (rule "1.IH" [OF refl fires refl p2 p1 _ p3]) simp
    then obtain j where j: "Suc k \<le> j" "tick_fires env j" "holder_seen env s0 j \<noteq> []"
        "\<forall>i. Suc k \<le> i \<and> i < j \<longrightarrow> holder_seen env s0 i = []"
        "le' = ?le1\<lparr>currentHolderIdentity := holder_seen env s0 j, running := True\<rparr>"
      by blast
    have a: "\<forall>i. k \<le> i \<and> i < j \<longrightarrow> holder_seen env s0 i = []"
    proof (intro allI impI)
      fix i assume i: "k \<le> i \<and> i < j"
      show "holder_seen env s0 i = []"
      proof (cases "i = k")
        case True
        with \<open>holder_seen env s0 k = []\<close> show ?thesis by simp
      next
        case False
        with i have "Suc k \<le> i \<and> i < j" by arith
        with j(4) show ?thesis by blast
      qed
    qed
    have b: "le' = le\<lparr>currentHolderIdentity := holder_seen env s0 j, running := True\<rparr>"
      using j(5) by (simp add: le1)
    have c: "k \<le> j" using j(1) by arith
    from a b c j(2) j(3) show ?thesis
      by blast
  qed
qed

lemma select_loop_timeout:
  "select_loop env k le = (Some e, le') \<Longrightarrow> 1 \<le> k \<Longrightarrow>
   currentHolderIdentity le = holder_seen env s0 (k - 1) \<Longrightarrow>
   e = TimeoutError timeoutDuration \<and>
   (\<forall>j\<ge>k. tick_fires env j \<longrightarrow> holder_seen env s0 j = []) \<and>
   (\<exists>n\<ge>k. \<not> tick_fires env n \<and> (\<forall>j. k \<le> j \<and> j < n \<longrightarrow> tick_fires env j) \<and>
      le' = le\<lparr>currentHolderIdentity := holder_seen env s0 n\<rparr>)"
proof (induction env k le rule: select_loop.induct)
  case (1 env k le)
  from "1.prems"(2) obtain m where k: "k = Suc m"
    by (cases k) auto
  let ?le1 = "callback_write env k le"
  have le1: "?le1 = le\<lparr>currentHolderIdentity := holder_seen env s0 k\<rparr>"
    using "1.prems"(3) callback_write_seen [of le env s0 m] by (simp add: k)
  have cur1: "currentHolderIdentity ?le1 = holder_seen env s0 k"
    by (simp add: le1)
  show ?case
  proof (cases "tick_fires env k")
    case False
    with "1.prems"(1) have r: "e = TimeoutError timeoutDuration" "le' = ?le1"
      using select_loop_stop [of env k le] by simp_all
    have never: "\<forall>j\<ge>k. tick_fires env j \<longrightarrow> holder_seen env s0 j = []"
      using False tick_fires_mono by blast
    have "k \<le> k \<and> \<not> tick_fires env k \<and> (\<forall>j. k \<le> j \<and> j < k \<longrightarrow> tick_fires env j) \<and>
        le' = le\<lparr>currentHolderIdentity := holder_seen env s0 k\<rparr>"
      using False r(2) le1 by auto
    then have "\<exists>n\<ge>k. \<not> tick_fires env n \<and> (\<forall>j. k \<le> j \<and> j < n \<longrightarrow> tick_fires env j) \<and>
        le' = le\<lparr>currentHolderIdentity := holder_seen env s0 n\<rparr>"
      by blast
    with never r(1) show ?thesis
      by blast
  next
    case fires: True
    have empty: "holder_seen env s0 k = []"
    proof (rule ccontr)
      assume "holder_seen env s0 k \<noteq> []"
      then have "select_loop env k le = (None, ?le1\<lparr>running := True\<rparr>)"
        using fires select_loop_found cur1 by simp
      with "1.prems"(1) show False by simp
    qed
    then have step: "select_loop env k le = select_loop env (Suc k) ?le1"
      using fires select_loop_next cur1 by simp
    have p1: "select_loop env (Suc k) ?le1 = (Some e, le')"
      using step "1.prems"(1) by simp
    have p2: "\<not> CurrentLeaderName ?le1 \<noteq> []"
      using empty cur1 by (simp add: CurrentLeaderName_def)
    have p3: "currentHolderIdentity ?le1 = holder_seen env s0 (Suc k - 1)"
      using cur1 by simp
    have ih: "e = TimeoutError timeoutDuration \<and>
        (\<forall>j\<ge>Suc k. tick_fires env j \<longrightarrow> holder_seen env s0 j = []) \<and>
        (\<exists>n\<ge>Suc k. \<not> tick_fires env n \<and> (\<forall>j. Suc k \<le> j \<and> j < n \<longrightarrow> tick_fires env j) \<and>
           le' = ?le1\<lparr>currentHolderIdentity := holder_seen env s0 n\<rparr>)"
      by (rule "1.IH" [OF refl fires refl p2 p1 _ p3]) simp
    then obtain n where n: "Suc k \<le> n" "\<not> tick_fires env n"
        "\<forall>j. Suc k \<le> j \<and> j < n \<longrightarrow> tick_fires env j"
        "le' = ?le1\<lparr>currentHolderIdentity := holder_seen env s0 n\<rparr>"
      by blast
    have all: "\<forall>j\<ge>k. tick_fires env j \<longrightarrow> holder_seen env s0 j = []"
    proof (intro allI impI)
      fix j assume j: "k \<le> j" "tick_fires env j"
      show "holder_seen env s0 j = []"
      proof (cases "j = k")
        case True
        with empty show ?thesis by simp
      next
        case False
        with j have "Suc k \<le> j" by arith
        with ih j(2) show ?thesis by blast
      qed
    qed
    have taken: "\<forall>j. k \<le> j \<and> j < n \<longrightarrow> tick_fires env j"
    proof (intro allI impI)
      fix j assume j: "k \<le> j \<and> j < n"
      show "tick_fires env j"
      proof (cases "j = k")
        case True
        with fires show ?thesis by simp
      next
        case False
        with j have "Suc k \<le> j \<and> j < n" by arith
        with n(3) show ?thesis by blast
      qed
    qed
    have state: "le' = le\<lparr>currentHolderIdentity := holder_seen env s0 n\<rparr>"
      using n(4) by (simp add: le1)
    have "k \<le> n"
      using n(1) by arith
    with n(2) taken state
    have "\<exists>n\<ge>k. \<not> tick_fires env n \<and> (\<forall>j. k \<le> j \<and> j < n \<longrightarrow> tick_fires env j) \<and>
        le' = le\<lparr>currentHolderIdentity := holder_seen env s0 n\<rparr>"
      by blast
    with ih all show ?thesis
      by blast
  qed
qed

text \<open>
  The case at which the timeout is taken: the eighth, or the ninth when the eighth tick
  was picked together with the timeout.
\<close>

lemma timeout_case:
  "1 \<le> n \<Longrightarrow> \<not> tick_fires env n \<Longrightarrow> (\<forall>j. 1 \<le> j \<and> j < n \<longrightarrow> tick_fires env j) \<Longrightarrow>
   n = (if tick_wins_tie env then 9 else 8)"
proof -
  assume n: "1 \<le> n" "\<not> tick_fires env n" "\<forall>j. 1 \<le> j \<and> j < n \<longrightarrow> tick_fires env j"
  have lo: "8 \<le> n" "tick_wins_tie env \<longrightarrow> 9 \<le> n"
    using n(2) by (auto simp add: tick_fires_iff)
  have hi: "n \<le> 9" "\<not> tick_wins_tie env \<longrightarrow> n \<le> 8"
  proof -
    show "n \<le> 9"
    proof (rule ccontr)
      assume "\<not> n \<le> 9"
      then have "1 \<le> (9::nat) \<and> 9 < n" by arith
      with n(3) have "tick_fires env 9" by blast
      then show False by (simp add: tick_fires_iff)
    qed
    show "\<not> tick_wins_tie env \<longrightarrow> n \<le> 8"
    proof (intro impI, rule ccontr)
      assume tie: "\<not> tick_wins_tie env" and "\<not> n \<le> 8"
      then have "1 \<le> (8::nat) \<and> 8 < n" by arith
      with n(3) have "tick_fires env 8" by blast
      with tie show False by (simp add: tick_fires_iff)
    qed
  qed
  from lo hi show ?thesis
    by (cases "tick_wins_tie env") auto
qed

text \<open>
  The loop of a call that starts at the first case either finds a non-empty holder at
  some tick that is taken, the first such tick, or sees an empty holder at every tick
  that is taken and ends with the timeout, the field holding what the callback wrote
  last.
\<close>

lemma select_loop_result:
  "(\<exists>j\<ge>1. tick_fires env j \<and> holder_seen env (currentHolderIdentity le) j \<noteq> [] \<and>
       (\<forall>i. 1 \<le> i \<and> i < j \<longrightarrow> holder_seen env (currentHolderIdentity le) i = []) \<and>
       select_loop env 1 le =
         (None, le\<lparr>currentHolderIdentity := holder_seen env (currentHolderIdentity le) j,
                    running := True\<rparr>)) \<or>
   ((\<forall>j\<ge>1. tick_fires env j \<longrightarrow> holder_seen env (currentHolderIdentity le) j = []) \<and>
    select_loop env 1 le =
      (Some (TimeoutError timeoutDuration),
       le\<lparr>currentHolderIdentity :=
            holder_seen env (currentHolderIdentity le) (if tick_wins_tie env then 9 else 8)\<rparr>))"
proof -
  obtain r le' where run: "select_loop env 1 le = (r, le')"
    by (cases "select_loop env 1 le") auto
  have start: "currentHolderIdentity le = holder_seen env (currentHolderIdentity le) (1 - 1)"
    by simp
  show ?thesis
  proof (cases r)
    case None
    with run have r0: "select_loop env 1 le = (None, le')"
      by simp
    have "\<exists>j\<ge>1. tick_fires env j \<and> holder_seen env (currentHolderIdentity le) j \<noteq> [] \<and>
        (\<forall>i. 1 \<le> i \<and> i < j \<longrightarrow> holder_seen env (currentHolderIdentity le) i = []) \<and>
        le' = le\<lparr>currentHolderIdentity := holder_seen env (currentHolderIdentity le) j,
                   running := True\<rparr>"
      by (rule select_loop_nil [OF r0 _ start]) simp
    then obtain j where j: "1 \<le> j" "tick_fires env j"
        "holder_seen env (currentHolderIdentity le) j \<noteq> []"
        "\<forall>i. 1 \<le> i \<and> i < j \<longrightarrow> holder_seen env (currentHolderIdentity le) i = []"
        "le' = le\<lparr>currentHolderIdentity := holder_seen env (currentHolderIdentity le) j,
                   running := True\<rparr>"
      by blast
    from j(5) r0 have "select_loop env 1 le =
        (None, le\<lparr>currentHolderIdentity := holder_seen env (currentHolderIdentity le) j,
                   running := True\<rparr>)"
      by simp
    with j(1-4) show ?thesis
      by blast
  next
    case (Some e)
    with run have r1: "select_loop env 1 le = (Some e, le')"
      by simp
    have "e = TimeoutError timeoutDuration \<and>
        (\<forall>j\<ge>1. tick_fires env j \<longrightarrow> holder_seen env (currentHolderIdentity le) j = []) \<and>
        (\<exists>n\<ge>1. \<not> tick_fires env n \<and> (\<forall>j. 1 \<le> j \<and> j < n \<longrightarrow> tick_fires env j) \<and>
           le' = le\<lparr>currentHolderIdentity := holder_seen env (currentHolderIdentity le) n\<rparr>)"
      by (rule select_loop_timeout [OF r1 _ start]) simp
    then obtain n where e: "e = TimeoutError timeoutDuration"
      and never: "\<forall>j\<ge>1. tick_fires env j \<longrightarrow> holder_seen env (currentHolderIdentity le) j = []"
      and n: "1 \<le> n" "\<not> tick_fires env n" "\<forall>j. 1 \<le> j \<and> j < n \<longrightarrow> tick_fires env j"
        "le' = le\<lparr>currentHolderIdentity := holder_seen env (currentHolderIdentity le) n\<rparr>"
      by blast
    have "n = (if tick_wins_tie env then 9 else 8)"
      using n(1-3) by (rule timeout_case)
    with n(4) r1 e have "select_loop env 1 le =
        (Some (TimeoutError timeoutDuration),
         le\<lparr>currentHolderIdentity :=
              holder_seen env (currentHolderIdentity le) (if tick_wins_tie env then 9 else 8)\<rparr>)"
      by simp
    with never show ?thesis
      by blast
  qed
qed

text \<open>The run-once guard: when it kills the process, and what it leaves otherwise.\<close>

lemma once_Do_dead: "(once_Do le = Inl ()) = (\<not> once le \<and> leaderElector le = None)"
  by (simp add: once_Do_def split: option.splits)

lemma once_Do_returns:
  "leaderElector le \<noteq> None \<or> once le \<Longrightarrow> \<exists>le1. once_Do le = Inr le1"
  by (auto simp add: once_Do_def split: option.splits)

lemma once_Do_frame:
  assumes "once_Do le = Inr le1"
  shows "currentHolderIdentity le1 = currentHolderIdentity le"
    and "running le1 = running le"
    and "once le1"
    and "launches le1 = (if once le then launches le else Suc (launches le))"
    and "leaderElector le1 = leaderElector le"
    and "le1\<lparr>once := once le, launches := launches le\<rparr> = le"
  using assms by (auto simp add: once_Do_def split: if_splits option.splits)

lemma once_Do_fired: "once le \<Longrightarrow> once_Do le = Inr le"
  by (simp add: once_Do_def)

lemma select_loop_frame:
  "once (snd (select_loop env 1 le)) = once le"
  "launches (snd (select_loop env 1 le)) = launches le"
  "leaderElector (snd (select_loop env 1 le)) = leaderElector le"
  using select_loop_result [of env le] by auto

text \<open>What one slow-path call returns, in the two cases of the loop.\<close>

lemma EnsureLeaderElectionRuns_slow:
  assumes "\<not> running le" and "once_Do le = Inr le1"
  shows "(\<exists>j\<ge>1. tick_fires env j \<and> holder_seen env (currentHolderIdentity le) j \<noteq> [] \<and>
       (\<forall>i. 1 \<le> i \<and> i < j \<longrightarrow> holder_seen env (currentHolderIdentity le) i = []) \<and>
       EnsureLeaderElectionRuns env le =
         Inr (None, le1\<lparr>currentHolderIdentity := holder_seen env (currentHolderIdentity le) j,
                         running := True\<rparr>)) \<or>
   ((\<forall>j\<ge>1. tick_fires env j \<longrightarrow> holder_seen env (currentHolderIdentity le) j = []) \<and>
    EnsureLeaderElectionRuns env le =
      Inr (Some (TimeoutError timeoutDuration),
           le1\<lparr>currentHolderIdentity :=
                 holder_seen env (currentHolderIdentity le) (if tick_wins_tie env then 9 else 8)\<rparr>))"
proof -
  have run: "EnsureLeaderElectionRuns env le = Inr (select_loop env 1 le1)"
    using assms by (simp add: EnsureLeaderElectionRuns_def)
  have cur: "currentHolderIdentity le1 = currentHolderIdentity le"
    using assms(2) by (rule once_Do_frame)
  from select_loop_result [of env le1] show ?thesis
    unfolding run cur by simp
qed

lemma EnsureLeaderElectionRuns_dead:
  "(EnsureLeaderElectionRuns env le = Inl ()) =
     (\<not> running le \<and> \<not> once le \<and> leaderElector le = None)"
proof (cases "running le")
  case True
  then show ?thesis
    by (simp add: EnsureLeaderElectionRuns_def)
next
  case False
  then have "(EnsureLeaderElectionRuns env le = Inl ()) = (once_Do le = Inl ())"
    by (simp add: EnsureLeaderElectionRuns_def split: sum.splits)
  with False show ?thesis
    by (simp add: once_Do_dead)
qed

lemma EnsureLeaderElectionRuns_guard:
  assumes "EnsureLeaderElectionRuns env le = Inr (r, le')"
  shows "once le' = (once le \<or> \<not> running le)"
    and "launches le' = (if running le \<or> once le then launches le else Suc (launches le))"
    and "leaderElector le' = leaderElector le"
proof -
  have "once le' = (once le \<or> \<not> running le) \<and>
    launches le' = (if running le \<or> once le then launches le else Suc (launches le)) \<and>
    leaderElector le' = leaderElector le"
  proof (cases "running le")
    case True
    with assms show ?thesis
      by (simp add: EnsureLeaderElectionRuns_def)
  next
    case False
    with assms obtain le1 where g: "once_Do le = Inr le1"
      and run: "select_loop env 1 le1 = (r, le')"
      by (auto simp add: EnsureLeaderElectionRuns_def split: sum.splits)
    from run have "le' = snd (select_loop env 1 le1)"
      by simp
    then show ?thesis
      using False once_Do_frame [OF g] select_loop_frame [of env le1] by simp
  qed
  then show "once le' = (once le \<or> \<not> running le)"
    and "launches le' = (if running le \<or> once le then launches le else Suc (launches le))"
    and "leaderElector le' = leaderElector le"
    by simp_all
qed

lemma EnsureLeaderElectionRuns_returns:
  "leaderElector le \<noteq> None \<or> once le \<Longrightarrow> \<exists>r le'. EnsureLeaderElectionRuns env le = Inr (r, le')"
proof -
  assume "leaderElector le \<noteq> None \<or> once le"
  then have "EnsureLeaderElectionRuns env le \<noteq> Inl ()"
    by (auto simp add: EnsureLeaderElectionRuns_dead)
  then show ?thesis
    by (cases "EnsureLeaderElectionRuns env le") auto
qed

lemma ensure_calls_returns:
  "leaderElector le \<noteq> None \<or> once le \<Longrightarrow> \<exists>le'. ensure_calls envs le = Inr le'"
proof (induction envs arbitrary: le)
  case Nil
  then show ?case by simp
next
  case (Cons env envs)
  from EnsureLeaderElectionRuns_returns [OF Cons.prems, of env]
  obtain r le1 where run: "EnsureLeaderElectionRuns env le = Inr (r, le1)"
    by blast
  have "leaderElector le1 \<noteq> None \<or> once le1"
    using Cons.prems EnsureLeaderElectionRuns_guard [OF run] by auto
  from Cons.IH [OF this] show ?case
    by (simp add: run)
qed

lemma ensure_calls_fired:
  "once le \<Longrightarrow> ensure_calls envs le = Inr le' \<Longrightarrow> once le' \<and> launches le' = launches le"
proof (induction envs arbitrary: le)
  case Nil
  then show ?case by auto
next
  case (Cons env envs)
  from Cons.prems(2) obtain r le1 where run: "EnsureLeaderElectionRuns env le = Inr (r, le1)"
    and rest: "ensure_calls envs le1 = Inr le'"
    by (auto split: sum.splits)
  have "once le1" "launches le1 = launches le"
    using Cons.prems(1) EnsureLeaderElectionRuns_guard [OF run] by simp_all
  with Cons.IH [OF _ rest] show ?case
    by simp
qed

lemma ensure_calls_count:
  "\<not> once le \<Longrightarrow> launches le = 0 \<Longrightarrow> ensure_calls envs le = Inr le' \<Longrightarrow>
   launches le' = (if once le' then 1 else 0)"
proof (induction envs arbitrary: le)
  case Nil
  then show ?case by auto
next
  case (Cons env envs)
  from Cons.prems(3) obtain r le1 where run: "EnsureLeaderElectionRuns env le = Inr (r, le1)"
    and rest: "ensure_calls envs le1 = Inr le'"
    by (auto split: sum.splits)
  show ?case
  proof (cases "once le1")
    case True
    then have "launches le1 = 1"
      using Cons.prems(1,2) EnsureLeaderElectionRuns_guard [OF run] by simp
    with ensure_calls_fired [OF True rest] show ?thesis
      by simp
  next
    case False
    then have "launches le1 = 0"
      using Cons.prems(1,2) EnsureLeaderElectionRuns_guard [OF run] by simp
    with Cons.IH [OF False _ rest] show ?thesis
      by simp
  qed
qed

lemma ensure_calls_dead:
  "ensure_calls envs le = Inl () \<Longrightarrow> \<not> once le \<and> leaderElector le = None"
proof (induction envs arbitrary: le)
  case Nil
  then show ?case by simp
next
  case (Cons env envs)
  show ?case
  proof (cases "EnsureLeaderElectionRuns env le")
    case (Inl dead)
    then have "EnsureLeaderElectionRuns env le = Inl ()"
      by simp
    then show ?thesis
      by (simp add: EnsureLeaderElectionRuns_dead)
  next
    case (Inr res)
    then obtain r le1 where run: "EnsureLeaderElectionRuns env le = Inr (r, le1)"
      by (cases res) auto
    with Cons.prems have "ensure_calls envs le1 = Inl ()"
      by simp
    from Cons.IH [OF this] EnsureLeaderElectionRuns_guard [OF run] show ?thesis
      by auto
  qed
qed

lemma holder_seen_idle: "holder_writes env = (\<lambda>k. None) \<Longrightarrow> holder_seen env name k = name"
  by (induction k) simp_all

lemma env_ok_idle: "holder_writes env_ok = (\<lambda>k. None)"
  by (simp add: env_ok_def)

lemma le_ready_fields:
  "running le_ready = False"
  "once le_ready = False"
  "launches le_ready = 0"
  "currentHolderIdentity le_ready = []"
  "leaderElector le_ready = Some (LeaderElector 0)"
  by (simp_all add: le_ready_def le_failed_def)

lemma le_ready_guard: "once_Do le_ready = Inr (le_ready\<lparr>once := True, launches := 1\<rparr>)"
  by (simp add: once_Do_def le_ready_fields)

text \<open>
  The initialized engine \<open>le_ready\<close>, which has an elector, when the callback never
  fires: the first call times out.
\<close>

lemma first_call_times_out:
  "EnsureLeaderElectionRuns env_ok le_ready =
     Inr (Some (TimeoutError timeoutDuration), le_ready\<lparr>once := True, launches := 1\<rparr>)"
proof -
  have nr: "\<not> running le_ready"
    by (simp add: le_ready_fields)
  have seen: "holder_seen env_ok [] j = []" for j
    by (simp add: holder_seen_idle [OF env_ok_idle])
  have after: "le_ready\<lparr>once := True, launches := 1, currentHolderIdentity := []\<rparr> =
      le_ready\<lparr>once := True, launches := 1\<rparr>"
    by (simp add: le_ready_def le_failed_def)
  from EnsureLeaderElectionRuns_slow [OF nr le_ready_guard, of env_ok] show ?thesis
    by (simp add: seen after le_ready_fields)
qed

text \<open>
  C1: a call launches the run loop exactly when it reaches the slow path (\<open>running\<close> is
  false) and the run-once guard has not fired, and after a call that reached the slow
  path the guard has fired. On an engine that has an elector every sequence of calls
  returns, whatever the environment does and whether calls time out or not. Over such
  a sequence: once the guard has fired the number of launches never changes again; from
  an engine that has not launched, the loop is launched at most once, and exactly once
  when the guard has fired; from a fresh engine, any non-empty sequence of calls
  launches it exactly once. A call does not return only when it makes the launch on an
  engine without an elector, which kills the process; that is the first call to reach
  the slow path, and nothing is launched after it.
\<close>

theorem launched_at_most_once:
  "(EnsureLeaderElectionRuns env le = Inl ()) =
     (\<not> running le \<and> \<not> once le \<and> leaderElector le = None) \<and>
   (EnsureLeaderElectionRuns env le = Inr (r, le1) \<longrightarrow>
      launches le1 = (if running le \<or> once le then launches le else Suc (launches le)) \<and>
      once le1 = (once le \<or> \<not> running le)) \<and>
   (leaderElector le \<noteq> None \<longrightarrow> (\<exists>le2. ensure_calls envs le = Inr le2)) \<and>
   (ensure_calls envs le = Inl () \<longrightarrow> \<not> once le \<and> leaderElector le = None) \<and>
   (ensure_calls envs le = Inr le' \<longrightarrow>
      (once le \<longrightarrow> launches le' = launches le) \<and>
      (\<not> once le \<and> launches le = 0 \<longrightarrow>
         launches le' \<le> 1 \<and> (launches le' = 1) = once le') \<and>
      (\<not> once le \<and> \<not> running le \<and> launches le = 0 \<and> envs \<noteq> [] \<longrightarrow> launches le' = 1))"
proof -
  have p1: "(EnsureLeaderElectionRuns env le = Inl ()) =
     (\<not> running le \<and> \<not> once le \<and> leaderElector le = None)"
    by (rule EnsureLeaderElectionRuns_dead)
  have p2: "EnsureLeaderElectionRuns env le = Inr (r, le1) \<longrightarrow>
      launches le1 = (if running le \<or> once le then launches le else Suc (launches le)) \<and>
      once le1 = (once le \<or> \<not> running le)"
    using EnsureLeaderElectionRuns_guard [of env le r le1] by blast
  have p3: "leaderElector le \<noteq> None \<longrightarrow> (\<exists>le2. ensure_calls envs le = Inr le2)"
    using ensure_calls_returns [of le envs] by blast
  have p4: "ensure_calls envs le = Inl () \<longrightarrow> \<not> once le \<and> leaderElector le = None"
    using ensure_calls_dead [of envs le] by blast
  have p5: "ensure_calls envs le = Inr le' \<longrightarrow> (once le \<longrightarrow> launches le' = launches le)"
    using ensure_calls_fired [of le envs le'] by blast
  have p6: "ensure_calls envs le = Inr le' \<longrightarrow>
      (\<not> once le \<and> launches le = 0 \<longrightarrow> launches le' \<le> 1 \<and> (launches le' = 1) = once le')"
    using ensure_calls_count [of le envs le'] by simp
  have p7: "ensure_calls envs le = Inr le' \<longrightarrow>
      (\<not> once le \<and> \<not> running le \<and> launches le = 0 \<and> envs \<noteq> [] \<longrightarrow> launches le' = 1)"
  proof (intro impI, elim conjE)
    assume all: "ensure_calls envs le = Inr le'"
      and fresh: "\<not> once le" "\<not> running le" "launches le = 0" and "envs \<noteq> []"
    then obtain env0 rest where envs: "envs = env0 # rest"
      by (cases envs) auto
    from all obtain r0 le0 where run: "EnsureLeaderElectionRuns env0 le = Inr (r0, le0)"
      and rest: "ensure_calls rest le0 = Inr le'"
      by (auto simp add: envs split: sum.splits)
    have "once le0" "launches le0 = 1"
      using fresh EnsureLeaderElectionRuns_guard [OF run] by simp_all
    with ensure_calls_fired [OF _ rest] show "launches le' = 1"
      by simp
  qed
  from p1 p2 p3 p4 p5 p6 p7 show ?thesis
    by blast
qed

text \<open>
  The initialized engine and three calls: the first times out, during the second the
  callback reports \<^verbatim>\<open>pod-a\<close>, the third finds the election running. All return, with
  one launch.
\<close>

theorem launched_at_most_once_witness:
  "leaderElector le_ready \<noteq> None \<and> \<not> once le_ready \<and> \<not> running le_ready \<and>
   launches le_ready = 0 \<and> [env_ok, env_elected, env_ok] \<noteq> [] \<and>
   (\<exists>le'. ensure_calls [env_ok, env_elected, env_ok] le_ready = Inr le' \<and> launches le' = 1)"
proof -
  let ?envs = "[env_ok, env_elected, env_ok]"
  have ready: "leaderElector le_ready \<noteq> None" "\<not> once le_ready" "\<not> running le_ready"
      "launches le_ready = 0"
    by (simp_all add: le_ready_fields)
  from launched_at_most_once [of env_ok le_ready None le_ready ?envs le_ready] ready(1)
  obtain le' where run: "ensure_calls ?envs le_ready = Inr le'"
    by blast
  from launched_at_most_once [of env_ok le_ready None le_ready ?envs le'] run ready
  have "launches le' = 1"
    by simp
  with run ready show ?thesis
    by simp
qed

text \<open>
  C2: \<^verbatim>\<open>EnsureLeaderElectionRuns\<close> returns \<^verbatim>\<open>nil\<close> in exactly two cases. When \<open>running\<close>
  is true it returns \<^verbatim>\<open>nil\<close> with the engine as it was, whatever the environment: no
  launch, no poll. Otherwise, on an engine that has an elector (or whose guard has
  fired), it returns \<^verbatim>\<open>nil\<close> if and only if \<open>currentHolderIdentity\<close> is non-empty at some
  tick that is taken; it then returns at the first such tick, with \<open>running\<close> set to
  true. The k-th tick comes 500 ms times k after the call and is taken while that is
  less than the timeout of twice the 2 s client timeout (or equal to it, when the
  \<^verbatim>\<open>select\<close> picks the tick). The call does not return exactly when it makes the launch
  on an engine without an elector.
\<close>

theorem ensure_returns_nil:
  "(running le \<longrightarrow> EnsureLeaderElectionRuns env le = Inr (None, le)) \<and>
   (EnsureLeaderElectionRuns env le = Inl ()) =
     (\<not> running le \<and> \<not> once le \<and> leaderElector le = None) \<and>
   (\<exists>le2. EnsureLeaderElectionRuns env le = Inr (None, le2)) =
     (running le \<or>
      ((leaderElector le \<noteq> None \<or> once le) \<and>
       (\<exists>k\<ge>1. tick_fires env k \<and> holder_seen env (currentHolderIdentity le) k \<noteq> []))) \<and>
   (\<not> running le \<and> once_Do le = Inr le1 \<and> EnsureLeaderElectionRuns env le = Inr (None, le') \<longrightarrow>
      (\<exists>k\<ge>1. tick_fires env k \<and> holder_seen env (currentHolderIdentity le) k \<noteq> [] \<and>
         (\<forall>i. 1 \<le> i \<and> i < k \<longrightarrow> holder_seen env (currentHolderIdentity le) i = []) \<and>
         le' = le1\<lparr>currentHolderIdentity := holder_seen env (currentHolderIdentity le) k,
                    running := True\<rparr>)) \<and>
   tick_fires env n =
     (int n * 500000000 < 4000000000 \<or> (int n * 500000000 = 4000000000 \<and> tick_wins_tie env)) \<and>
   sint tickPeriod = 500 * 1000000 \<and>
   sint timeoutDuration = 2 * sint clientTimeout \<and>
   sint clientTimeout = 2 * 1000000000"
proof -
  have p1: "running le \<longrightarrow> EnsureLeaderElectionRuns env le = Inr (None, le)"
    by (simp add: EnsureLeaderElectionRuns_def)
  have p2: "(EnsureLeaderElectionRuns env le = Inl ()) =
     (\<not> running le \<and> \<not> once le \<and> leaderElector le = None)"
    by (rule EnsureLeaderElectionRuns_dead)
  have slow: "(\<exists>le2. EnsureLeaderElectionRuns env le = Inr (None, le2)) =
      (\<exists>k\<ge>1. tick_fires env k \<and> holder_seen env (currentHolderIdentity le) k \<noteq> [])"
    if nr: "\<not> running le" and g: "once_Do le = Inr l" for l
    using EnsureLeaderElectionRuns_slow [OF nr g, of env]
  proof (elim disjE exE conjE)
    fix j
    assume "1 \<le> j" "tick_fires env j" "holder_seen env (currentHolderIdentity le) j \<noteq> []"
      and "EnsureLeaderElectionRuns env le =
        Inr (None, l\<lparr>currentHolderIdentity := holder_seen env (currentHolderIdentity le) j,
                       running := True\<rparr>)"
    then show ?thesis
      by auto
  next
    assume "\<forall>j\<ge>1. tick_fires env j \<longrightarrow> holder_seen env (currentHolderIdentity le) j = []"
      and "EnsureLeaderElectionRuns env le =
        Inr (Some (TimeoutError timeoutDuration),
             l\<lparr>currentHolderIdentity :=
                  holder_seen env (currentHolderIdentity le) (if tick_wins_tie env then 9 else 8)\<rparr>)"
    then show ?thesis
      by auto
  qed
  have p3: "(\<exists>le2. EnsureLeaderElectionRuns env le = Inr (None, le2)) =
     (running le \<or>
      ((leaderElector le \<noteq> None \<or> once le) \<and>
       (\<exists>k\<ge>1. tick_fires env k \<and> holder_seen env (currentHolderIdentity le) k \<noteq> [])))"
  proof (cases "running le")
    case True
    with p1 show ?thesis
      by simp
  next
    case nr: False
    show ?thesis
    proof (cases "leaderElector le \<noteq> None \<or> once le")
      case True
      from once_Do_returns [OF this] obtain l where "once_Do le = Inr l"
        by blast
      from slow [OF nr this] nr True show ?thesis
        by simp
    next
      case False
      with nr have "EnsureLeaderElectionRuns env le = Inl ()"
        by (simp add: EnsureLeaderElectionRuns_dead)
      with nr False show ?thesis
        by simp
    qed
  qed
  have p4: "\<not> running le \<and> once_Do le = Inr le1 \<and> EnsureLeaderElectionRuns env le = Inr (None, le') \<longrightarrow>
      (\<exists>k\<ge>1. tick_fires env k \<and> holder_seen env (currentHolderIdentity le) k \<noteq> [] \<and>
         (\<forall>i. 1 \<le> i \<and> i < k \<longrightarrow> holder_seen env (currentHolderIdentity le) i = []) \<and>
         le' = le1\<lparr>currentHolderIdentity := holder_seen env (currentHolderIdentity le) k,
                    running := True\<rparr>)"
  proof (intro impI, elim conjE)
    assume nr: "\<not> running le" and g: "once_Do le = Inr le1"
      and nil: "EnsureLeaderElectionRuns env le = Inr (None, le')"
    from EnsureLeaderElectionRuns_slow [OF nr g, of env]
    show "\<exists>k\<ge>1. tick_fires env k \<and> holder_seen env (currentHolderIdentity le) k \<noteq> [] \<and>
         (\<forall>i. 1 \<le> i \<and> i < k \<longrightarrow> holder_seen env (currentHolderIdentity le) i = []) \<and>
         le' = le1\<lparr>currentHolderIdentity := holder_seen env (currentHolderIdentity le) k,
                    running := True\<rparr>"
    proof (elim disjE exE conjE)
      fix j
      assume "1 \<le> j" "tick_fires env j" "holder_seen env (currentHolderIdentity le) j \<noteq> []"
        "\<forall>i. 1 \<le> i \<and> i < j \<longrightarrow> holder_seen env (currentHolderIdentity le) i = []"
        and "EnsureLeaderElectionRuns env le =
          Inr (None, le1\<lparr>currentHolderIdentity := holder_seen env (currentHolderIdentity le) j,
                    running := True\<rparr>)"
      with nil show ?thesis
        by (intro exI [of _ j]) simp
    next
      assume "EnsureLeaderElectionRuns env le =
        Inr (Some (TimeoutError timeoutDuration),
             le1\<lparr>currentHolderIdentity :=
                  holder_seen env (currentHolderIdentity le) (if tick_wins_tie env then 9 else 8)\<rparr>)"
      with nil show ?thesis
        by simp
    qed
  qed
  have p5: "tick_fires env n =
     (int n * 500000000 < 4000000000 \<or> (int n * 500000000 = 4000000000 \<and> tick_wins_tie env))"
    by (simp add: tick_fires_def tick_times)
  have p6: "sint tickPeriod = 500 * 1000000" "sint timeoutDuration = 2 * sint clientTimeout"
    "sint clientTimeout = 2 * 1000000000"
    by (simp_all add: tick_times clientTimeout_def Second_def Millisecond_def)
  from p1 p2 p3 p4 p5 p6 show ?thesis
    by blast
qed

text \<open>
  The initialized engine, whose callback reports \<^verbatim>\<open>pod-a\<close> before the second tick:
  the call returns \<^verbatim>\<open>nil\<close> with \<open>running\<close> set and \<^verbatim>\<open>pod-a\<close> as the holder. The same
  engine when it is running: the call returns \<^verbatim>\<open>nil\<close> and the engine as it was.
\<close>

theorem ensure_returns_nil_witness:
  "\<not> running le_ready \<and> leaderElector le_ready \<noteq> None \<and>
   once_Do le_ready = Inr (le_ready\<lparr>once := True, launches := 1\<rparr>) \<and>
   tick_fires env_elected 2 \<and>
   holder_seen env_elected (currentHolderIdentity le_ready) 2 = ''pod-a'' \<and>
   (\<exists>le'. EnsureLeaderElectionRuns env_elected le_ready = Inr (None, le') \<and> running le') \<and>
   running (le_ready\<lparr>running := True\<rparr>) \<and>
   EnsureLeaderElectionRuns env_ok (le_ready\<lparr>running := True\<rparr>) =
     Inr (None, le_ready\<lparr>running := True\<rparr>)"
proof -
  have nr: "\<not> running le_ready" and el: "leaderElector le_ready \<noteq> None"
    by (simp_all add: le_ready_fields)
  have fires: "tick_fires env_elected 2"
    by (simp add: tick_fires_iff)
  have seen: "holder_seen env_elected (currentHolderIdentity le_ready) 2 = ''pod-a''"
    by (simp add: numeral_2_eq_2 env_elected_def)
  have ex: "\<exists>k\<ge>1. tick_fires env_elected k \<and>
      holder_seen env_elected (currentHolderIdentity le_ready) k \<noteq> []"
    using fires seen by (intro exI [of _ 2]) simp
  note t = ensure_returns_nil [of le_ready env_elected]
  from t [of le_ready le_ready 0] nr el ex
  obtain le' where nil: "EnsureLeaderElectionRuns env_elected le_ready = Inr (None, le')"
    by blast
  from t [of "le_ready\<lparr>once := True, launches := 1\<rparr>" le' 0] nr le_ready_guard nil
  have "\<exists>k\<ge>1. le' = le_ready\<lparr>once := True, launches := 1,
      currentHolderIdentity := holder_seen env_elected (currentHolderIdentity le_ready) k,
      running := True\<rparr>"
    by blast
  then have run: "running le'"
    by auto
  have fast: "EnsureLeaderElectionRuns env_ok (le_ready\<lparr>running := True\<rparr>) =
      Inr (None, le_ready\<lparr>running := True\<rparr>)"
    using ensure_returns_nil [of "le_ready\<lparr>running := True\<rparr>" env_ok le_ready le_ready 0]
    by simp
  from nr el le_ready_guard fires seen nil run fast show ?thesis
    by simp
qed

text \<open>
  The first call on the initialized engine, which has an elector, when the callback
  never fires: it returns the timeout error, and the engine is not as it was. The
  run-once guard has fired and the run loop has been launched.
\<close>

theorem ensure_timeout_counterexample:
  "leaderElector le_ready = Some (LeaderElector 0) \<and>
   EnsureLeaderElectionRuns env_ok le_ready =
     Inr (Some (TimeoutError timeoutDuration), le_ready\<lparr>once := True, launches := 1\<rparr>) \<and>
   once le_ready = False \<and>
   once (le_ready\<lparr>once := True, launches := 1\<rparr>) = True \<and>
   launches le_ready = 0 \<and>
   launches (le_ready\<lparr>once := True, launches := 1\<rparr>) = 1 \<and>
   le_ready\<lparr>once := True, launches := 1\<rparr> \<noteq> le_ready"
proof -
  have "once (le_ready\<lparr>once := True, launches := 1\<rparr>) \<noteq> once le_ready"
    by (simp add: le_ready_fields)
  then have "le_ready\<lparr>once := True, launches := 1\<rparr> \<noteq> le_ready"
    by metis
  then show ?thesis
    by (simp add: first_call_times_out le_ready_fields)
qed

text \<open>
  C3, as amended: on an engine that has an elector, if \<open>running\<close> is false and
  \<open>currentHolderIdentity\<close> is empty at every tick that is taken,
  \<^verbatim>\<open>EnsureLeaderElectionRuns\<close> returns the timeout error and leaves \<open>running\<close> false. The
  run-once guard has fired (launching the run loop unless it had fired before) and
  \<open>currentHolderIdentity\<close> holds what the callback wrote last before the timeout was
  taken; every other field of the engine is unchanged. A subsequent call takes the
  slow path again: it polls, and it does not launch again.
\<close>

theorem ensure_timeout:
  assumes "\<not> running le"
    and "leaderElector le \<noteq> None"
    and "\<forall>k\<ge>1. tick_fires env k \<longrightarrow> holder_seen env (currentHolderIdentity le) k = []"
  shows "\<exists>le'. EnsureLeaderElectionRuns env le = Inr (Some (TimeoutError timeoutDuration), le') \<and>
           le' = le\<lparr>once := True,
                    launches := (if once le then launches le else Suc (launches le)),
                    currentHolderIdentity :=
                      holder_seen env (currentHolderIdentity le) (if tick_wins_tie env then 9 else 8)\<rparr> \<and>
           running le' = False \<and>
           EnsureLeaderElectionRuns env' le' = Inr (select_loop env' 1 le') \<and>
           launches (snd (select_loop env' 1 le')) = launches le'"
proof -
  from assms(2) once_Do_returns [of le] obtain le1 where g: "once_Do le = Inr le1"
    by blast
  let ?seen = "holder_seen env (currentHolderIdentity le) (if tick_wins_tie env then 9 else 8)"
  let ?le' = "le1\<lparr>currentHolderIdentity := ?seen\<rparr>"
  have run: "EnsureLeaderElectionRuns env le = Inr (Some (TimeoutError timeoutDuration), ?le')"
    using EnsureLeaderElectionRuns_slow [OF assms(1) g, of env] assms(3) by blast
  have le1: "le1 = le\<lparr>once := True, launches := (if once le then launches le else Suc (launches le))\<rparr>"
    using g by (auto simp add: once_Do_def split: if_splits option.splits)
  have state: "?le' = le\<lparr>once := True,
      launches := (if once le then launches le else Suc (launches le)),
      currentHolderIdentity := ?seen\<rparr>"
    by (subst le1) simp
  have after: "running ?le' = False" "once ?le'"
    using assms(1) once_Do_frame [OF g] by simp_all
  have again: "EnsureLeaderElectionRuns env' ?le' = Inr (select_loop env' 1 ?le')"
    using after by (simp add: EnsureLeaderElectionRuns_def once_Do_fired)
  have same: "launches (snd (select_loop env' 1 ?le')) = launches ?le'"
    by (rule select_loop_frame)
  from run state after(1) again same show ?thesis
    by (intro exI [of _ ?le']) (simp only: simp_thms)
qed

text \<open>
  The initialized engine whose callback never fires, called twice: both calls time
  out, the second after polling again, and the loop is launched once. The same engine
  when the callback reports \<^verbatim>\<open>pod-a\<close> after the last tick taken: the call times out
  and the engine holds \<^verbatim>\<open>pod-a\<close>.
\<close>

theorem ensure_timeout_witness:
  "\<not> running le_ready \<and> leaderElector le_ready \<noteq> None \<and>
   holder_seen env_ok (currentHolderIdentity le_ready) 7 = [] \<and>
   EnsureLeaderElectionRuns env_ok le_ready =
     Inr (Some (TimeoutError timeoutDuration), le_ready\<lparr>once := True, launches := 1\<rparr>) \<and>
   EnsureLeaderElectionRuns env_ok (le_ready\<lparr>once := True, launches := 1\<rparr>) =
     Inr (select_loop env_ok 1 (le_ready\<lparr>once := True, launches := 1\<rparr>)) \<and>
   launches (snd (select_loop env_ok 1 (le_ready\<lparr>once := True, launches := 1\<rparr>))) = 1 \<and>
   holder_seen env_late (currentHolderIdentity le_ready) 7 = [] \<and>
   EnsureLeaderElectionRuns env_late le_ready =
     Inr (Some (TimeoutError timeoutDuration),
          le_ready\<lparr>once := True, launches := 1, currentHolderIdentity := ''pod-a''\<rparr>)"
proof -
  have nr: "\<not> running le_ready" and el: "leaderElector le_ready \<noteq> None"
    by (simp_all add: le_ready_fields)
  have seen0: "holder_seen env_ok [] k = []" for k
    by (simp add: holder_seen_idle [OF env_ok_idle])
  have seen: "holder_seen env_ok (currentHolderIdentity le_ready) k = []" for k
    by (simp add: seen0 le_ready_fields)
  have never: "\<forall>k\<ge>1. tick_fires env_ok k \<longrightarrow> holder_seen env_ok (currentHolderIdentity le_ready) k = []"
    using seen by simp
  have same: "le_ready\<lparr>once := True, launches := 1, currentHolderIdentity := []\<rparr> =
      le_ready\<lparr>once := True, launches := 1\<rparr>"
    by (simp add: le_ready_def le_failed_def)
  from ensure_timeout [OF nr el never, of env_ok]
  obtain le' where run: "EnsureLeaderElectionRuns env_ok le_ready =
        Inr (Some (TimeoutError timeoutDuration), le')"
    and le': "le' = le_ready\<lparr>once := True,
        launches := (if once le_ready then launches le_ready else Suc (launches le_ready)),
        currentHolderIdentity :=
          holder_seen env_ok (currentHolderIdentity le_ready) (if tick_wins_tie env_ok then 9 else 8)\<rparr>"
    and again: "EnsureLeaderElectionRuns env_ok le' = Inr (select_loop env_ok 1 le')"
    and count: "launches (snd (select_loop env_ok 1 le')) = launches le'"
    by blast
  have "le' = le_ready\<lparr>once := True, launches := 1\<rparr>"
    by (simp only: le' seen) (simp add: le_ready_fields same)
  with run again count
  have a: "EnsureLeaderElectionRuns env_ok le_ready =
      Inr (Some (TimeoutError timeoutDuration), le_ready\<lparr>once := True, launches := 1\<rparr>) \<and>
    EnsureLeaderElectionRuns env_ok (le_ready\<lparr>once := True, launches := 1\<rparr>) =
      Inr (select_loop env_ok 1 (le_ready\<lparr>once := True, launches := 1\<rparr>)) \<and>
    launches (snd (select_loop env_ok 1 (le_ready\<lparr>once := True, launches := 1\<rparr>))) = 1"
    by simp
  have tie: "\<not> tick_wins_tie env_late"
    by (simp add: env_late_def env_ok_def)
  have late7: "holder_seen env_late [] k = []" if "k \<le> 7" for k
    using that by (induction k) (simp_all add: env_late_def)
  have late8: "holder_seen env_late [] 8 = ''pod-a''"
    by (simp add: eval_nat_numeral env_late_def)
  have never_late: "\<forall>k\<ge>1. tick_fires env_late k \<longrightarrow>
      holder_seen env_late (currentHolderIdentity le_ready) k = []"
    using tie late7 by (auto simp add: tick_fires_iff le_ready_fields)
  from ensure_timeout [OF nr el never_late, of env_ok]
  obtain le2 where run2: "EnsureLeaderElectionRuns env_late le_ready =
        Inr (Some (TimeoutError timeoutDuration), le2)"
    and le2: "le2 = le_ready\<lparr>once := True,
        launches := (if once le_ready then launches le_ready else Suc (launches le_ready)),
        currentHolderIdentity :=
          holder_seen env_late (currentHolderIdentity le_ready) (if tick_wins_tie env_late then 9 else 8)\<rparr>"
    by blast
  have "le2 = le_ready\<lparr>once := True, launches := 1, currentHolderIdentity := ''pod-a''\<rparr>"
    using tie by (simp add: le2 le_ready_fields late8)
  with run2
  have b: "EnsureLeaderElectionRuns env_late le_ready =
     Inr (Some (TimeoutError timeoutDuration),
          le_ready\<lparr>once := True, launches := 1, currentHolderIdentity := ''pod-a''\<rparr>)"
    by simp
  from nr el seen [of 7] late7 [of 7] a b show ?thesis
    by (simp add: le_ready_fields)
qed

text \<open>
  After that timeout the engine holds \<^verbatim>\<open>pod-a\<close>, and the next call returns \<^verbatim>\<open>nil\<close> at
  its first tick.
\<close>

lemma second_call_after_late_write:
  "EnsureLeaderElectionRuns env_ok
     (le_ready\<lparr>once := True, launches := 1, currentHolderIdentity := ''pod-a''\<rparr>) =
   Inr (None,
        le_ready\<lparr>once := True, launches := 1, currentHolderIdentity := ''pod-a'', running := True\<rparr>)"
proof -
  let ?le = "le_ready\<lparr>once := True, launches := 1, currentHolderIdentity := ''pod-a''\<rparr>"
  have g: "once_Do ?le = Inr ?le"
    by (simp add: once_Do_def)
  have w: "callback_write env_ok 1 ?le = ?le"
    by (simp add: callback_write_def env_ok_def)
  have "tick_fires env_ok 1"
    by (simp add: tick_fires_iff)
  then have loop: "select_loop env_ok 1 ?le = (None, ?le\<lparr>running := True\<rparr>)"
    using select_loop_found [of env_ok 1 ?le] by (simp only: w) simp
  have nr: "running ?le = False"
    by (simp add: le_ready_fields)
  have "EnsureLeaderElectionRuns env_ok ?le = Inr (select_loop env_ok 1 ?le)"
    by (simp only: EnsureLeaderElectionRuns_def nr g if_False sum.case)
  with loop show ?thesis
    by simp
qed

end
